theory Spec2Isabelle
  imports Complex_Main
begin

section \<open>Texts and character classes\<close>

text \<open>
  A Python \<open>str\<close> is a sequence of code points. A text is modelled as a \<open>string\<close>, a list of
  characters read as the code points U+0000 to U+00FF, so \<open>length\<close> counts code points as
  Python's \<open>len\<close> does. The character classes below are the ones CPython assigns to these
  code points: \<open>str.isspace\<close>, \<open>str.strip\<close> and the pattern \<open>\s\<close> share one table, \<open>\w\<close> is
  \<open>str.isalnum\<close> or the underscore, \<open>\d\<close> is \<open>str.isdecimal\<close>.
\<close>

definition cp :: "char \<Rightarrow> nat" where
  "cp c = of_char c"

definition isspace :: "char \<Rightarrow> bool" where
  "isspace c = ((9 \<le> cp c \<and> cp c \<le> 13) \<or> (28 \<le> cp c \<and> cp c \<le> 32) \<or> cp c = 133 \<or> cp c = 160)"

definition ascii_letter :: "char \<Rightarrow> bool" where
  "ascii_letter c = ((65 \<le> cp c \<and> cp c \<le> 90) \<or> (97 \<le> cp c \<and> cp c \<le> 122))"

definition isalpha :: "char \<Rightarrow> bool" where
  "isalpha c = (ascii_letter c \<or> cp c = 170 \<or> cp c = 181 \<or> cp c = 186 \<or>
     (192 \<le> cp c \<and> cp c \<le> 214) \<or> (216 \<le> cp c \<and> cp c \<le> 246) \<or> 248 \<le> cp c)"

definition isdecimal :: "char \<Rightarrow> bool" where
  "isdecimal c = (48 \<le> cp c \<and> cp c \<le> 57)"

definition isword :: "char \<Rightarrow> bool" where
  "isword c = (isalpha c \<or> isdecimal c \<or> cp c = 95 \<or> cp c = 178 \<or> cp c = 179 \<or> cp c = 185 \<or>
     (188 \<le> cp c \<and> cp c \<le> 190))"

definition newline :: char where
  "newline = CHR 0x0A"

definition tab :: char where
  "tab = CHR 0x09"

definition blank :: "char \<Rightarrow> bool" where
  "blank c = (c = CHR '' '' \<or> c = tab)"

definition sentence_end :: "char \<Rightarrow> bool" where
  "sentence_end c = (c = CHR ''.'' \<or> c = CHR ''!'' \<or> c = CHR ''?'')"

subsection \<open>String methods\<close>

text \<open>\<open>str.lstrip\<close>, \<open>str.rstrip\<close> and \<open>str.strip\<close> without argument.\<close>

definition lstrip :: "string \<Rightarrow> string" where
  "lstrip s = dropWhile isspace s"

fun rstrip :: "string \<Rightarrow> string" where
  "rstrip [] = []"
| "rstrip (c # cs) = (if isspace c \<and> rstrip cs = [] then [] else c # rstrip cs)"

text \<open>The same function with the recursive call shared, for evaluation.\<close>

lemma rstrip_code [code]:
  "rstrip [] = []"
  "rstrip (c # cs) = (case rstrip cs of [] \<Rightarrow> (if isspace c then [] else [c]) | d # ds \<Rightarrow> c # d # ds)"
  by (simp_all split: list.splits)

definition strip :: "string \<Rightarrow> string" where
  "strip s = rstrip (lstrip s)"

text \<open>\<open>text.split('\n')\<close>: the empty text gives one empty line.\<close>

fun split_lines :: "string \<Rightarrow> string list" where
  "split_lines [] = [[]]"
| "split_lines (c # cs) =
     (if c = newline then [] # split_lines cs
      else (case split_lines cs of [] \<Rightarrow> [[c]] | l # ls \<Rightarrow> (c # l) # ls))"

text \<open>\<open>'\n'.join(lines)\<close>.\<close>

fun join_lines :: "string list \<Rightarrow> string" where
  "join_lines [] = []"
| "join_lines [l] = l"
| "join_lines (l # m # ls) = l @ newline # join_lines (m # ls)"

subsection \<open>The regular expressions of the cleaning code\<close>

text \<open>
  \<open>re.sub(r'\n\s*\n\s*\n+', '\n\n', text)\<close>. A match starts at a newline; since \<open>\s\<close> matches
  newlines too, every matched character lies in the maximal whitespace run that starts there.
  The pattern needs three newlines in that run, and the greedy quantifiers with backtracking
  extend the match up to and including the last newline of the run. Scanning resumes right
  after the match.
\<close>

definition count_newlines :: "string \<Rightarrow> nat" where
  "count_newlines w = length (filter (\<lambda>c. c = newline) w)"

fun after_last_newline :: "string \<Rightarrow> string" where
  "after_last_newline [] = []"
| "after_last_newline (c # cs) =
     (if newline \<in> set cs then after_last_newline cs
      else if c = newline then cs else c # cs)"

function collapse_blank_lines :: "string \<Rightarrow> string" where
  "collapse_blank_lines [] = []"
| "collapse_blank_lines (c # cs) =
     (if c = newline \<and> 2 \<le> count_newlines (takeWhile isspace cs)
      then newline # newline #
           collapse_blank_lines (after_last_newline (takeWhile isspace cs) @ dropWhile isspace cs)
      else c # collapse_blank_lines cs)"
  by pat_completeness auto

lemma length_after_last_newline: "length (after_last_newline w) \<le> length w"
  by (induction w) auto

lemma length_rest_after_match:
  "length (after_last_newline (takeWhile P cs) @ dropWhile P cs) \<le> length cs"
proof -
  have "length (after_last_newline (takeWhile P cs)) \<le> length (takeWhile P cs)"
    by (rule length_after_last_newline)
  moreover have "length (takeWhile P cs) + length (dropWhile P cs) = length cs"
    by (metis length_append takeWhile_dropWhile_id)
  ultimately show ?thesis by simp
qed

termination collapse_blank_lines
proof (relation "measure length")
  show "wf (measure length)" by simp
next
  fix c :: char and cs :: string
  show "(after_last_newline (takeWhile isspace cs) @ dropWhile isspace cs, c # cs) \<in> measure length"
    using length_rest_after_match [of isspace cs] by simp
next
  fix c :: char and cs :: string
  show "(cs, c # cs) \<in> measure length" by simp
qed

text \<open>\<open>re.sub(r'[ \t]+', ' ', text)\<close>: every maximal run of spaces and tabs becomes one space.\<close>

function collapse_spaces :: "string \<Rightarrow> string" where
  "collapse_spaces [] = []"
| "collapse_spaces (c # cs) =
     (if blank c then CHR '' '' # collapse_spaces (dropWhile blank cs)
      else c # collapse_spaces cs)"
  by pat_completeness auto

termination collapse_spaces
proof (relation "measure length")
  show "wf (measure length)" by simp
next
  fix c :: char and cs :: string
  have "length (dropWhile blank cs) \<le> length cs"
    by (rule length_dropWhile_le)
  then show "(dropWhile blank cs, c # cs) \<in> measure length" by simp
next
  fix c :: char and cs :: string
  show "(cs, c # cs) \<in> measure length" by simp
qed

text \<open>\<open>re.findall(r'\b\w+\b', text)\<close>: the maximal runs of word characters, left to right.\<close>

function find_words :: "string \<Rightarrow> string list" where
  "find_words [] = []"
| "find_words (c # cs) =
     (if isword c then (c # takeWhile isword cs) # find_words (dropWhile isword cs)
      else find_words cs)"
  by pat_completeness auto

termination find_words
proof (relation "measure length")
  show "wf (measure length)" by simp
next
  fix c :: char and cs :: string
  have "length (dropWhile isword cs) \<le> length cs"
    by (rule length_dropWhile_le)
  then show "(dropWhile isword cs, c # cs) \<in> measure length" by simp
next
  fix c :: char and cs :: string
  show "(cs, c # cs) \<in> measure length" by simp
qed

text \<open>
  \<open>re.split(r'[.!?]+', text)\<close>: the pieces between the maximal runs of sentence punctuation;
  there is one piece more than there are runs, so the result is never empty.
\<close>

function split_sentences :: "string \<Rightarrow> string list" where
  "split_sentences [] = [[]]"
| "split_sentences (c # cs) =
     (if sentence_end c then [] # split_sentences (dropWhile sentence_end cs)
      else (case split_sentences cs of [] \<Rightarrow> [[c]] | p # ps \<Rightarrow> (c # p) # ps))"
  by pat_completeness auto

termination split_sentences
proof (relation "measure length")
  show "wf (measure length)" by simp
next
  fix c :: char and cs :: string
  have "length (dropWhile sentence_end cs) \<le> length cs"
    by (rule length_dropWhile_le)
  then show "(dropWhile sentence_end cs, c # cs) \<in> measure length" by simp
next
  fix c :: char and cs :: string
  show "(cs, c # cs) \<in> measure length" by simp
qed

text \<open>
  \<open>re.match(r'^[a-zA-Z]+$', word)\<close> and \<open>re.match(r'^\d+$', line)\<close>: one or more characters of
  the class up to the end of the string; \<open>$\<close> also matches just before a final newline.
\<close>

definition before_final_newline :: "string \<Rightarrow> string" where
  "before_final_newline s = (if s \<noteq> [] \<and> last s = newline then butlast s else s)"

definition match_letters :: "string \<Rightarrow> bool" where
  "match_letters w = (before_final_newline w \<noteq> [] \<and> list_all ascii_letter (before_final_newline w))"

definition match_digits :: "string \<Rightarrow> bool" where
  "match_digits l = (before_final_newline l \<noteq> [] \<and> list_all isdecimal (before_final_newline l))"

section \<open>utils/text_cleaning.py\<close>

record TextQualityMetrics =
  total_chars :: int
  total_words :: int
  avg_word_length :: real
  readability_score :: real
  has_meaningful_content :: bool
  language_confidence :: real

text \<open>\<open>TextQualityMetrics()\<close>, the dataclass with its default values.\<close>

definition TextQualityMetrics_default :: TextQualityMetrics where
  "TextQualityMetrics_default =
     \<lparr>total_chars = 0, total_words = 0, avg_word_length = 0, readability_score = 0,
      has_meaningful_content = False, language_confidence = 0\<rparr>"

subsection \<open>HTMLCleaner._clean_text\<close>

text \<open>
  In this module Python floats are modelled as real numbers. The alphabetic ratio of a line is
  a quotient of two lengths compared with \<open>0.3\<close>.
\<close>

definition alpha_ratio :: "string \<Rightarrow> real" where
  "alpha_ratio line = real (length (filter isalpha line)) / real (length line)"

text \<open>The loop over the lines of \<open>_clean_text\<close>, with its three \<open>continue\<close> statements.\<close>

fun clean_lines :: "string list \<Rightarrow> string list" where
  "clean_lines [] = []"
| "clean_lines (l # ls) =
     (let line = strip l in
      if line = [] then clean_lines ls
      else if length line < 10 then clean_lines ls
      else if alpha_ratio line < 3 / 10 \<and> 20 < length line then clean_lines ls
      else line # clean_lines ls)"

text \<open>
  \<open>unicodedata.normalize('NFKC', text)\<close> is a library function; the cleaner takes it as the
  parameter \<open>nfkc\<close>.
\<close>

definition clean_text :: "(string \<Rightarrow> string) \<Rightarrow> string \<Rightarrow> string" where
  "clean_text nfkc text =
     (if text = [] then []
      else strip (join_lines (clean_lines (split_lines
             (collapse_spaces (collapse_blank_lines (nfkc text)))))))"

subsection \<open>HTMLCleaner._calculate_quality_metrics\<close>

definition calculate_quality_metrics :: "string \<Rightarrow> TextQualityMetrics" where
  "calculate_quality_metrics text =
     (if text = [] then TextQualityMetrics_default
      else
        let words = find_words text;
            n_chars = int (length text);
            n_words = int (length words);
            avg_len = (if words \<noteq> [] then of_int (int (sum_list (map length words))) / of_int n_words
                       else 0);
            sentences = split_sentences text;
            avg_words_per_sentence =
              (if sentences \<noteq> [] then of_int n_words / of_int (int (length sentences)) else 0);
            readability = max 0 (100 - avg_words_per_sentence);
            meaningful = (50 < n_words \<and> 3 < avg_len \<and> 20 < readability);
            english_words = int (length (filter match_letters words));
            confidence = (if words \<noteq> [] then of_int english_words / of_int n_words else 0)
        in \<lparr>total_chars = n_chars, total_words = n_words, avg_word_length = avg_len,
            readability_score = readability, has_meaningful_content = meaningful,
            language_confidence = confidence\<rparr>)"

subsection \<open>TextQualityChecker.get_quality_score\<close>

definition get_quality_score :: "TextQualityMetrics \<Rightarrow> real" where
  "get_quality_score metrics =
     (if total_words metrics = 0 then 0
      else
        let word_score = min 100 (of_int (total_words metrics) / 2);
            readability = max 0 (min 100 (readability_score metrics));
            language_score = language_confidence metrics * 100
        in word_score * (4 / 10) + readability * (3 / 10) + language_score * (3 / 10))"

section \<open>pipelines/extract/pdf_to_text.py\<close>

record PDFMetadata =
  title :: "string option"
  author :: "string option"
  subject :: "string option"
  creator :: "string option"
  producer :: "string option"
  creation_date :: "string option"
  modification_date :: "string option"
  pages :: nat
  encrypted :: bool
  file_size :: nat

definition PDFMetadata_default :: PDFMetadata where
  "PDFMetadata_default =
     \<lparr>title = None, author = None, subject = None, creator = None, producer = None,
      creation_date = None, modification_date = None, pages = 0, encrypted = False,
      file_size = 0\<rparr>"

record PDFExtractionResult =
  result_text :: string
  metadata :: PDFMetadata
  quality_metrics :: TextQualityMetrics
  extraction_method :: string
  confidence_score :: real
  processing_time :: real
  errors :: "string list"

text \<open>The field \<open>text\<close> of the result is \<open>result_text\<close> here.\<close>

record PDFTextExtractor =
  ocr_fallback :: bool
  ocr_min_confidence :: real
  tesseract_config :: string

text \<open>
  \<open>PDFTextExtractor.__init__\<close>; \<open>OCR_AVAILABLE\<close> is the module's flag, set by whether the OCR
  packages could be imported.
\<close>

definition PDFTextExtractor_init :: "bool \<Rightarrow> bool \<Rightarrow> real \<Rightarrow> string \<Rightarrow> PDFTextExtractor" where
  "PDFTextExtractor_init OCR_AVAILABLE fallback min_confidence config =
     \<lparr>ocr_fallback = (fallback \<and> OCR_AVAILABLE), ocr_min_confidence = min_confidence,
      tesseract_config = config\<rparr>"

subsection \<open>Values of the PDF information dictionary\<close>

text \<open>
  What \<open>info.get(key, '')\<close> can return: a \<open>str\<close>, a \<open>bytes\<close> object, \<open>None\<close>, or another object,
  of which the code uses only the truth value and \<open>str()\<close>.
\<close>

datatype pdf_object = PdfStr string | PdfBytes string | PdfNone | PdfObj bool string

definition truthy :: "pdf_object \<Rightarrow> bool" where
  "truthy v = (case v of PdfStr s \<Rightarrow> s \<noteq> [] | PdfBytes b \<Rightarrow> b \<noteq> [] | PdfNone \<Rightarrow> False
               | PdfObj t _ \<Rightarrow> t)"

text \<open>Python's slice \<open>s[i:j]\<close> for indices that are not negative.\<close>

definition slice :: "nat \<Rightarrow> nat \<Rightarrow> string \<Rightarrow> string" where
  "slice i j s = take (j - i) (drop i s)"

definition startswith :: "string \<Rightarrow> string \<Rightarrow> bool" where
  "startswith s prefix = (take (length prefix) s = prefix)"

subsection \<open>PDFTextExtractor._parse_pdf_date\<close>

text \<open>
  No statement of the \<open>try\<close> block can raise on these values, so the bare \<open>except\<close> is never
  entered and the function returns on every input.
\<close>

definition parse_pdf_date :: "pdf_object \<Rightarrow> string option" where
  "parse_pdf_date date_string =
     (if \<not> truthy date_string then None
      else case date_string of
        PdfStr s \<Rightarrow>
          if startswith s ''D:'' then
            (let date_part = slice 2 16 s in
             if 8 \<le> length date_part then
               (let year = slice 0 4 date_part;
                    month = slice 4 6 date_part;
                    day = slice 6 8 date_part;
                    hour = (if 8 < length date_part then slice 8 10 date_part else ''00'');
                    minute = (if 10 < length date_part then slice 10 12 date_part else ''00'');
                    second = (if 12 < length date_part then slice 12 14 date_part else ''00'')
                in Some (year @ ''-'' @ month @ ''-'' @ day @ '' '' @ hour @ '':'' @ minute @ '':'' @ second))
             else None)
          else None
      | _ \<Rightarrow> None)"

subsection \<open>PDFTextExtractor._decode_pdf_string\<close>

text \<open>
  \<open>bytes.decode('utf-8')\<close> is the parameter \<open>utf8_decode\<close>, \<open>None\<close> standing for
  \<open>UnicodeDecodeError\<close>; decoding as Latin-1 maps every byte to the code point of the same
  number.
\<close>

definition decode_pdf_string :: "(string \<Rightarrow> string option) \<Rightarrow> pdf_object \<Rightarrow> string" where
  "decode_pdf_string utf8_decode pdf_string =
     (case pdf_string of
        PdfBytes b \<Rightarrow> (case utf8_decode b of Some s \<Rightarrow> s | None \<Rightarrow> b)
      | PdfStr s \<Rightarrow> s
      | PdfNone \<Rightarrow> []
      | PdfObj t repr \<Rightarrow> (if t then repr else []))"

subsection \<open>The libraries behind the extractor\<close>

text \<open>
  What pdfminer, PyMuPDF and Tesseract answer for one \<open>pdf_content\<close>. \<open>Inl\<close> carries the message
  of a raised exception.
  \<^item> \<open>parsed_document\<close>: the outcome of lines 190 to 213 of \<open>_extract_metadata\<close>, the parsed
    document on success.
  \<^item> \<open>pdfminer_text\<close>: the outcome of \<open>extract_text\<close>.
  \<^item> \<open>ocr_pages\<close>: the outcome of the page loop of \<open>_extract_text_ocr\<close>; for every page of the
    document its recognised text and its list \<open>confidences\<close>.
  \<^item> \<open>float_round\<close>: the rounding of an exact result to the nearest \<open>float\<close>, which Python
    applies after every arithmetic operation on floats; the literals \<open>0.4\<close> and \<open>0.6\<close> are the
    rounded values of 4/10 and 6/10.
  \<^item> \<open>deferred_import\<close>: the outcome of the statement
    \<open>from ..utils.text_cleaning import HTMLCleaner\<close> that \<open>_calculate_quality_metrics\<close> executes
    on each call; \<open>Some msg\<close> is an \<open>ImportError\<close>. Whether the package \<open>..utils\<close> exists depends
    on where the module is loaded from.
\<close>

record pdf_document =
  info :: "(string \<Rightarrow> pdf_object option) option"
  page_count :: nat
  is_encrypted :: bool

record pdf_library =
  OCR_AVAILABLE :: bool
  utf8_decode :: "string \<Rightarrow> string option"
  parsed_document :: "string + pdf_document"
  pdfminer_text :: "string + string"
  ocr_pages :: "string + (string \<times> int list) list"
  float_round :: "real \<Rightarrow> real"
  deferred_import :: "string option"

subsection \<open>PDFTextExtractor._extract_metadata\<close>

definition info_get :: "(string \<Rightarrow> pdf_object option) \<Rightarrow> string \<Rightarrow> pdf_object" where
  "info_get d key = (case d key of Some v \<Rightarrow> v | None \<Rightarrow> PdfStr [])"

definition extract_metadata :: "pdf_library \<Rightarrow> string \<Rightarrow> PDFMetadata" where
  "extract_metadata lib pdf_content =
     (case parsed_document lib of
        Inl e \<Rightarrow> PDFMetadata_default
      | Inr document \<Rightarrow>
          (let m = (case info document of
                      None \<Rightarrow> PDFMetadata_default
                    | Some d \<Rightarrow> PDFMetadata_default
                        \<lparr>title := Some (decode_pdf_string (utf8_decode lib) (info_get d ''Title'')),
                         author := Some (decode_pdf_string (utf8_decode lib) (info_get d ''Author'')),
                         subject := Some (decode_pdf_string (utf8_decode lib) (info_get d ''Subject'')),
                         creator := Some (decode_pdf_string (utf8_decode lib) (info_get d ''Creator'')),
                         producer := Some (decode_pdf_string (utf8_decode lib) (info_get d ''Producer'')),
                         creation_date := parse_pdf_date (info_get d ''CreationDate''),
                         modification_date := parse_pdf_date (info_get d ''ModDate'')\<rparr>)
           in m\<lparr>pages := page_count document, file_size := length pdf_content,
                 encrypted := is_encrypted document\<rparr>))"

subsection \<open>PDFTextExtractor._calculate_text_confidence\<close>

text \<open>Every float operation of the source is followed by the rounding \<open>rnd\<close>.\<close>

definition calculate_text_confidence :: "(real \<Rightarrow> real) \<Rightarrow> string \<Rightarrow> real" where
  "calculate_text_confidence rnd t =
     (if t = [] \<or> strip t = [] then 0
      else
        let words = find_words t;
            chars = length t
        in if words = [] then 0
           else
             let avg_word_len = rnd (real (sum_list (map length words)) / real (length words));
                 alpha = rnd (real (length (filter isalpha t)) / real chars);
                 word_len_score = max 0 (rnd (100 - rnd (\<bar>rnd (avg_word_len - 5)\<bar> * 10)));
                 alpha_score = rnd (alpha * 100);
                 confidence = rnd (rnd (word_len_score * rnd (4 / 10)) +
                                   rnd (alpha_score * rnd (6 / 10)))
             in min 100 (max 0 confidence))"

subsection \<open>PDFTextExtractor._extract_text_direct\<close>

definition extract_text_direct :: "pdf_library \<Rightarrow> string \<times> real" where
  "extract_text_direct lib =
     (case pdfminer_text lib of
        Inl e \<Rightarrow> ([], 0)
      | Inr t \<Rightarrow> (t, calculate_text_confidence (float_round lib) t))"

subsection \<open>PDFTextExtractor._extract_text_ocr\<close>

text \<open>\<open>'\n\n'.join(extracted_text)\<close>.\<close>

fun join_pages :: "string list \<Rightarrow> string" where
  "join_pages [] = []"
| "join_pages [p] = p"
| "join_pages (p # q # ps) = p @ newline # newline # join_pages (q # ps)"

definition page_confidence :: "(real \<Rightarrow> real) \<Rightarrow> int list \<Rightarrow> real" where
  "page_confidence rnd confidences =
     (if confidences \<noteq> [] then rnd (of_int (sum_list confidences) / real (length confidences))
      else 0)"

definition extract_text_ocr :: "pdf_library \<Rightarrow> string \<times> real" where
  "extract_text_ocr lib =
     (if \<not> OCR_AVAILABLE lib then ([], 0)
      else case ocr_pages lib of
        Inl e \<Rightarrow> ([], 0)
      | Inr all_pages \<Rightarrow>
          (let read = take 50 all_pages;
               extracted_text = map fst read;
               total_confidence =
                 foldl (\<lambda>total p. float_round lib (total + page_confidence (float_round lib) (snd p)))
                   0 read;
               n = length read;
               final_text = join_pages extracted_text;
               avg_confidence = (if 0 < n then float_round lib (total_confidence / real n) else 0)
           in (final_text, avg_confidence)))"

subsection \<open>PDFTextExtractor._calculate_quality_metrics\<close>

text \<open>The deferred import comes first; only when it succeeds is the cleaner's method called.\<close>

definition pdf_calculate_quality_metrics :: "string option \<Rightarrow> string \<Rightarrow> string + TextQualityMetrics" where
  "pdf_calculate_quality_metrics import_outcome t =
     (case import_outcome of
        Some e \<Rightarrow> Inl e
      | None \<Rightarrow> Inr (calculate_quality_metrics t))"

subsection \<open>PDFTextExtractor._merge_texts\<close>

definition merge_texts :: "string option \<Rightarrow> string \<Rightarrow> string \<Rightarrow> string + string" where
  "merge_texts import_outcome direct_text ocr_text =
     (if direct_text = [] then Inr ocr_text
      else if ocr_text = [] then Inr direct_text
      else case pdf_calculate_quality_metrics import_outcome direct_text of
        Inl e \<Rightarrow> Inl e
      | Inr direct_quality \<Rightarrow>
          (case pdf_calculate_quality_metrics import_outcome ocr_text of
             Inl e \<Rightarrow> Inl e
           | Inr ocr_quality \<Rightarrow>
               Inr (if has_meaningful_content direct_quality \<and> \<not> has_meaningful_content ocr_quality
                    then direct_text
                    else if has_meaningful_content ocr_quality \<and> \<not> has_meaningful_content direct_quality
                    then ocr_text
                    else if length ocr_text \<le> length direct_text then direct_text else ocr_text)))"

subsection \<open>PDFTextExtractor._clean_extracted_text\<close>

fun clean_extracted_lines :: "string list \<Rightarrow> string list" where
  "clean_extracted_lines [] = []"
| "clean_extracted_lines (l # ls) =
     (let line = strip l in
      if line = [] then clean_extracted_lines ls
      else if length line < 5 then clean_extracted_lines ls
      else if match_digits line \<and> length line \<le> 4 then clean_extracted_lines ls
      else line # clean_extracted_lines ls)"

definition clean_extracted_text :: "string \<Rightarrow> string" where
  "clean_extracted_text t =
     (if t = [] then []
      else strip (join_lines (clean_extracted_lines (split_lines
             (collapse_spaces (collapse_blank_lines t))))))"

subsection \<open>PDFTextExtractor.extract_from_pdf\<close>

text \<open>
  The method calls its helpers \<open>_extract_metadata\<close>, \<open>_extract_text_direct\<close> and
  \<open>_extract_text_ocr\<close> through \<open>self\<close>. \<open>extract_from_pdf_with\<close> is the body of the method over
  what these calls return, so that it can be read at any helper results; \<open>extract_from_pdf\<close>
  below supplies the results of the helpers of this file. Beside the result the model returns
  the names of the helpers called, in order: OCR is attempted when \<open>_extract_text_ocr\<close> is
  among them. \<open>elapsed\<close> is the clock difference stored as \<open>processing_time\<close>.
\<close>

record helper_results =
  metadata_result :: PDFMetadata
  direct_result :: "string \<times> real"
  ocr_result :: "string \<times> real"
  import_result :: "string option"

text \<open>The \<open>except Exception\<close> branch, lines 170 to 185.\<close>

definition extraction_failed :: "string \<Rightarrow> real \<Rightarrow> PDFExtractionResult" where
  "extraction_failed e elapsed =
     \<lparr>result_text = [], metadata = PDFMetadata_default,
      quality_metrics = TextQualityMetrics_default, extraction_method = ''failed'',
      confidence_score = 0, processing_time = elapsed,
      errors = [''PDF extraction failed: '' @ e]\<rparr>"

text \<open>Lines 152 to 168: cleaning, the quality metrics and the result record.\<close>

definition finish_extraction ::
  "helper_results \<Rightarrow> real \<Rightarrow> string \<Rightarrow> string \<Rightarrow> real \<Rightarrow> PDFExtractionResult" where
  "finish_extraction h elapsed method selected confidence =
     (let final_text = clean_extracted_text selected in
      case pdf_calculate_quality_metrics (import_result h) final_text of
        Inl e \<Rightarrow> extraction_failed e elapsed
      | Inr quality \<Rightarrow>
          \<lparr>result_text = final_text, metadata = metadata_result h, quality_metrics = quality,
           extraction_method = method, confidence_score = confidence,
           processing_time = elapsed, errors = []\<rparr>)"

definition ocr_gate :: "PDFTextExtractor \<Rightarrow> string \<Rightarrow> real \<Rightarrow> bool" where
  "ocr_gate self direct_text direct_confidence =
     (ocr_fallback self \<and> direct_confidence < ocr_min_confidence self \<and>
      length (strip direct_text) < 1000)"

definition extract_from_pdf_with ::
  "PDFTextExtractor \<Rightarrow> helper_results \<Rightarrow> real \<Rightarrow> PDFExtractionResult \<times> string list" where
  "extract_from_pdf_with self h elapsed =
     (let (direct_text, direct_confidence) = direct_result h in
      if ocr_gate self direct_text direct_confidence then
        (let (ocr_text, ocr_confidence) = ocr_result h;
             calls = [''_extract_metadata'', ''_extract_text_direct'', ''_extract_text_ocr'']
         in if direct_confidence < ocr_confidence then
              (finish_extraction h elapsed ''ocr'' ocr_text ocr_confidence, calls)
            else if ocr_text \<noteq> [] \<and> length (strip direct_text) < length (strip ocr_text) then
              (case merge_texts (import_result h) direct_text ocr_text of
                 Inl e \<Rightarrow> (extraction_failed e elapsed, calls)
               | Inr merged \<Rightarrow>
                   (finish_extraction h elapsed ''hybrid'' merged
                      (max direct_confidence ocr_confidence), calls))
            else (finish_extraction h elapsed ''direct'' direct_text direct_confidence, calls))
      else
        (finish_extraction h elapsed ''direct'' direct_text direct_confidence,
         [''_extract_metadata'', ''_extract_text_direct'']))"

definition helpers_of :: "pdf_library \<Rightarrow> string \<Rightarrow> helper_results" where
  "helpers_of lib pdf_content =
     \<lparr>metadata_result = extract_metadata lib pdf_content,
      direct_result = extract_text_direct lib,
      ocr_result = extract_text_ocr lib,
      import_result = deferred_import lib\<rparr>"

definition extract_from_pdf ::
  "PDFTextExtractor \<Rightarrow> pdf_library \<Rightarrow> real \<Rightarrow> string \<Rightarrow> PDFExtractionResult" where
  "extract_from_pdf self lib elapsed pdf_content =
     fst (extract_from_pdf_with self (helpers_of lib pdf_content) elapsed)"

definition ocr_attempted :: "PDFTextExtractor \<Rightarrow> helper_results \<Rightarrow> real \<Rightarrow> bool" where
  "ocr_attempted self h elapsed =
     (''_extract_text_ocr'' \<in> set (snd (extract_from_pdf_with self h elapsed)))"

section \<open>HTMLCleaner.clean_html\<close>

text \<open>
  A metadata dictionary (\<open>Dict[str, Any]\<close>) is an association list; its values are strings,
  numbers, truth values or \<open>None\<close>.
\<close>

datatype meta_value = MetaStr string | MetaNat nat | MetaBool bool | MetaNone

type_synonym meta_dict = "(string \<times> meta_value) list"

definition meta_optional :: "string option \<Rightarrow> meta_value" where
  "meta_optional v = (case v of None \<Rightarrow> MetaNone | Some s \<Rightarrow> MetaStr s)"

text \<open>
  BeautifulSoup and \<open>unicodedata\<close> are libraries. \<open>soup_outcome\<close> is the outcome of lines 80 to 89
  of \<open>clean_html\<close> (parsing, removal of the unwanted elements, title and main content): the
  message of a raised exception, or the title and the main content. \<open>metadata_outcome\<close> is
  the outcome of \<open>_extract_metadata(soup, url)\<close>.
\<close>

record html_library =
  soup_outcome :: "string + (string \<times> string)"
  nfkc :: "string \<Rightarrow> string"
  metadata_outcome :: "string + meta_dict"

text \<open>The dictionary \<open>clean_html\<close> returns.\<close>

record clean_result =
  cr_title :: string
  cleaned_text :: string
  cr_quality_metrics :: TextQualityMetrics
  cr_metadata :: meta_dict
  extraction_success :: bool
  error :: "string option"

definition cleaning_failed :: "string \<Rightarrow> clean_result" where
  "cleaning_failed e =
     \<lparr>cr_title = [], cleaned_text = [], cr_quality_metrics = TextQualityMetrics_default,
      cr_metadata = [], extraction_success = False, error = Some e\<rparr>"

definition clean_html :: "html_library \<Rightarrow> clean_result" where
  "clean_html lib =
     (case soup_outcome lib of
        Inl e \<Rightarrow> cleaning_failed e
      | Inr (page_title, main_content) \<Rightarrow>
          (let cleaned = clean_text (nfkc lib) main_content;
               quality = calculate_quality_metrics cleaned
           in case metadata_outcome lib of
                Inl e \<Rightarrow> cleaning_failed e
              | Inr meta \<Rightarrow>
                  \<lparr>cr_title = page_title, cleaned_text = cleaned, cr_quality_metrics = quality,
                   cr_metadata = meta, extraction_success = True, error = None\<rparr>))"

section \<open>pipelines/extract/html_to_text.py\<close>

text \<open>
  The constructor of \<open>DocumentExtractionResult\<close> declares \<open>errors: Optional[List[str]]\<close> but
  stores whatever it is given, and one caller passes a string; the field therefore holds a
  list of strings or a single string.
\<close>

datatype errors_value = ErrorList "string list" | ErrorStr string

definition errors_len :: "errors_value \<Rightarrow> nat" where
  "errors_len v = (case v of ErrorList es \<Rightarrow> length es | ErrorStr s \<Rightarrow> length s)"

record DocumentExtractionResult =
  document_id :: string
  source_name :: string
  url :: string
  document_type :: string
  extracted_text :: string
  doc_title :: string
  doc_metadata :: meta_dict
  doc_quality_metrics :: TextQualityMetrics
  doc_extraction_method :: string
  doc_confidence_score :: real
  doc_processing_time :: real
  doc_errors :: errors_value
  extraction_timestamp :: real

text \<open>
  \<open>DocumentExtractionResult.__init__\<close>. An optional argument left out is \<open>None\<close>;
  \<open>errors or []\<close> turns \<open>None\<close>, the empty list and the empty string into the empty list.
  \<open>now\<close> is the clock reading stored as \<open>extraction_timestamp\<close>.
\<close>

definition errors_or_empty :: "errors_value option \<Rightarrow> errors_value" where
  "errors_or_empty v =
     (case v of
        None \<Rightarrow> ErrorList []
      | Some (ErrorList es) \<Rightarrow> ErrorList es
      | Some (ErrorStr s) \<Rightarrow> (if s = [] then ErrorList [] else ErrorStr s))"

definition DocumentExtractionResult_init ::
  "string \<Rightarrow> string \<Rightarrow> string \<Rightarrow> string \<Rightarrow> string \<Rightarrow> string \<Rightarrow> meta_dict option \<Rightarrow>
   TextQualityMetrics option \<Rightarrow> string \<Rightarrow> real \<Rightarrow> real \<Rightarrow> errors_value option \<Rightarrow> real \<Rightarrow>
   DocumentExtractionResult" where
  "DocumentExtractionResult_init did src u dtype body ttl meta quality method confidence
       time errs now =
     \<lparr>document_id = did, source_name = src, url = u, document_type = dtype,
      extracted_text = body, doc_title = ttl,
      doc_metadata = (case meta of None \<Rightarrow> [] | Some m \<Rightarrow> m),
      doc_quality_metrics = (case quality of None \<Rightarrow> TextQualityMetrics_default | Some q \<Rightarrow> q),
      doc_extraction_method = method, doc_confidence_score = confidence,
      doc_processing_time = time, doc_errors = errors_or_empty errs,
      extraction_timestamp = now\<rparr>"

text \<open>The property \<open>extraction_success\<close>: \<open>len(self.errors) == 0\<close>.\<close>

definition doc_extraction_success :: "DocumentExtractionResult \<Rightarrow> bool" where
  "doc_extraction_success r = (errors_len (doc_errors r) = 0)"

subsection \<open>The content and the world of one call\<close>

text \<open>
  The content is a \<open>str\<close> or a \<open>bytes\<close> object. A \<open>str\<close> may hold a lone surrogate (a code
  point from U+D800 to U+DFFF), which lies outside the code points of the model's texts and
  which \<open>str.encode('utf-8')\<close> refuses; \<open>LoneSurrogateStr\<close> stands for such a \<open>str\<close>. The code
  encodes it at line 212, before anything else, so no other function meets it.
\<close>

datatype content = StrContent string | BytesContent string | LoneSurrogateStr

definition raw :: "content \<Rightarrow> string" where
  "raw c = (case c of StrContent s \<Rightarrow> s | BytesContent b \<Rightarrow> b | LoneSurrogateStr \<Rightarrow> [])"

text \<open>\<open>str.encode('utf-8')\<close> on code points below 256: one byte, or two from U+0080 on.\<close>

definition utf8_encode :: "string \<Rightarrow> string" where
  "utf8_encode s =
     concat (map (\<lambda>c. if cp c < 128 then [c]
                       else [char_of (192 + cp c div 64), char_of (128 + cp c mod 64)]) s)"

text \<open>
  What one call of \<open>process_document\<close> reads from outside: the libraries, the clock
  (\<open>started\<close> at line 209, \<open>stamped\<close> in the constructor of the result, \<open>finished\<close> at line 228,
  and the two readings of the error result), the duration measured inside the PDF extractor,
  and whether \<open>_save_result\<close> raises (\<open>Some msg\<close>) while writing the file or uploading it.
\<close>

record world =
  html :: html_library
  pdf :: pdf_library
  started :: real
  stamped :: real
  finished :: real
  error_stamped :: real
  error_finished :: real
  pdf_elapsed :: real
  save_outcome :: "string option"

subsection \<open>TextExtractionPipeline._generate_content_hash\<close>

text \<open>
  \<open>hashlib.sha256(...).hexdigest()\<close> is the parameter \<open>sha256_hexdigest\<close>. \<open>Inl\<close> carries the
  message of the \<open>UnicodeEncodeError\<close> that \<open>content.encode('utf-8')\<close> raises at line 354.
\<close>

definition generate_content_hash :: "(string \<Rightarrow> string) \<Rightarrow> content \<Rightarrow> string + string" where
  "generate_content_hash sha256_hexdigest c =
     (case c of
        StrContent s \<Rightarrow> Inr (sha256_hexdigest (utf8_encode s))
      | BytesContent b \<Rightarrow> Inr (sha256_hexdigest b)
      | LoneSurrogateStr \<Rightarrow> Inl ''UnicodeEncodeError: surrogates not allowed'')"

subsection \<open>TextExtractionPipeline._detect_document_type\<close>

definition lower_char :: "char \<Rightarrow> char" where
  "lower_char c =
     (if (65 \<le> cp c \<and> cp c \<le> 90) \<or> (192 \<le> cp c \<and> cp c \<le> 222 \<and> cp c \<noteq> 215)
      then char_of (cp c + 32) else c)"

definition lower :: "string \<Rightarrow> string" where
  "lower s = map lower_char s"

definition endswith :: "string \<Rightarrow> string \<Rightarrow> bool" where
  "endswith s suffix = (length suffix \<le> length s \<and> drop (length s - length suffix) s = suffix)"

text \<open>\<open>sub in s\<close>.\<close>

fun contains :: "string \<Rightarrow> string \<Rightarrow> bool" where
  "contains [] sub = (sub = [])"
| "contains (c # cs) sub = (startswith (c # cs) sub \<or> contains cs sub)"

definition looks_like_html :: "string \<Rightarrow> bool" where
  "looks_like_html t = (contains (lower t) ''<html'' \<or> contains (lower t) ''<!doctype html'')"

definition detect_document_type :: "(string \<Rightarrow> string option) \<Rightarrow> content \<Rightarrow> string option \<Rightarrow> string" where
  "detect_document_type decode c filename =
     (let by_name =
            (case filename of
               None \<Rightarrow> None
             | Some name \<Rightarrow>
                 if name = [] then None
                 else if endswith (lower name) ''.pdf'' then Some ''pdf''
                 else if endswith (lower name) ''.html'' \<or> endswith (lower name) ''.htm''
                 then Some ''html''
                 else None)
      in case by_name of
           Some t \<Rightarrow> t
         | None \<Rightarrow>
             (case c of
                BytesContent b \<Rightarrow>
                  if startswith b ''%PDF-'' then ''pdf''
                  else (case decode b of
                          Some text_content \<Rightarrow> (if looks_like_html text_content then ''html'' else ''html'')
                        | None \<Rightarrow> ''html'')
              | StrContent s \<Rightarrow> (if looks_like_html s then ''html'' else ''html'')
              | LoneSurrogateStr \<Rightarrow> ''html''))"

subsection \<open>TextExtractionPipeline._process_html_document\<close>

definition process_html_document ::
  "world \<Rightarrow> string \<Rightarrow> string \<Rightarrow> string \<Rightarrow> DocumentExtractionResult" where
  "process_html_document w src u did =
     (let cleaned = clean_html (html w) in
      if \<not> extraction_success cleaned then
        DocumentExtractionResult_init did src u ''html'' [] [] None
          (Some (cr_quality_metrics cleaned)) [] 0 0
          (case error cleaned of None \<Rightarrow> None | Some e \<Rightarrow> Some (ErrorStr e)) (stamped w)
      else
        (let quality_score = get_quality_score (cr_quality_metrics cleaned) in
         DocumentExtractionResult_init did src u ''html'' (cleaned_text cleaned) (cr_title cleaned)
           (Some (cr_metadata cleaned)) (Some (cr_quality_metrics cleaned)) ''html_cleaning''
           quality_score 0 None (stamped w)))"

subsection \<open>TextExtractionPipeline._process_pdf_document\<close>

text \<open>\<open>PDFTextExtractor()\<close> as the pipeline constructs it, with the default arguments.\<close>

definition default_extractor :: "pdf_library \<Rightarrow> PDFTextExtractor" where
  "default_extractor lib = PDFTextExtractor_init (OCR_AVAILABLE lib) True 60 ''--oem 3 --psm 6''"

definition process_pdf_document ::
  "world \<Rightarrow> string \<Rightarrow> string \<Rightarrow> string \<Rightarrow> string \<Rightarrow> DocumentExtractionResult" where
  "process_pdf_document w pdf_content src u did =
     (let pdf_result = extract_from_pdf (default_extractor (pdf w)) (pdf w) (pdf_elapsed w) pdf_content
      in DocumentExtractionResult_init did src u ''pdf'' (result_text pdf_result) []
           (Some [(''title'', meta_optional (title (metadata pdf_result))),
                  (''author'', meta_optional (author (metadata pdf_result))),
                  (''pages'', MetaNat (pages (metadata pdf_result))),
                  (''file_size'', MetaNat (file_size (metadata pdf_result))),
                  (''creation_date'', meta_optional (creation_date (metadata pdf_result)))])
           (Some (quality_metrics pdf_result)) (extraction_method pdf_result)
           (confidence_score pdf_result) 0 (Some (ErrorList (errors pdf_result))) (stamped w))"

subsection \<open>TextExtractionPipeline.process_document\<close>

text \<open>
  \<open>dispatch\<close> is the \<open>try\<close> block, lines 220 to 233; \<open>Inl\<close> carries the message of the exception
  that leaves it: the \<open>ValueError\<close> of line 225 or what \<open>_save_result\<close> raised.
\<close>

definition dispatch ::
  "world \<Rightarrow> content \<Rightarrow> string \<Rightarrow> string \<Rightarrow> string \<Rightarrow> string \<Rightarrow> string + DocumentExtractionResult" where
  "dispatch w c src u did dtype =
     (case (if dtype = ''html'' then Inr (process_html_document w src u did)
            else if dtype = ''pdf'' then Inr (process_pdf_document w (raw c) src u did)
            else Inl (''Unsupported document type: '' @ dtype)) of
        Inl e \<Rightarrow> Inl e
      | Inr result \<Rightarrow>
          (case save_outcome w of
             Some e \<Rightarrow> Inl e
           | None \<Rightarrow> Inr (result\<lparr>doc_processing_time := finished w - started w\<rparr>)))"

text \<open>
  Lines 216 and 217: the requested type, or the detected one when none is given (\<open>None\<close> and
  the empty string are both false in Python).
\<close>

definition resolve_document_type :: "world \<Rightarrow> content \<Rightarrow> string option \<Rightarrow> string option \<Rightarrow> string" where
  "resolve_document_type w c requested_type filename =
     (case requested_type of
        None \<Rightarrow> detect_document_type (utf8_decode (pdf w)) c filename
      | Some t \<Rightarrow> if t = [] then detect_document_type (utf8_decode (pdf w)) c filename else t)"

text \<open>
  The hash is computed at line 212, before the \<open>try\<close> of line 219: an exception of
  \<open>_generate_content_hash\<close> leaves \<open>process_document\<close>, which is the outer \<open>Inl\<close>. Every exception
  of the \<open>try\<close> block is turned into a record by the handler of lines 235 to 250.
\<close>

definition process_document ::
  "(string \<Rightarrow> string) \<Rightarrow> world \<Rightarrow> content \<Rightarrow> string \<Rightarrow> string \<Rightarrow> string option \<Rightarrow> string option \<Rightarrow>
   string + DocumentExtractionResult" where
  "process_document sha256_hexdigest w c src u requested_type filename =
     (case generate_content_hash sha256_hexdigest c of
        Inl e \<Rightarrow> Inl e
      | Inr content_hash \<Rightarrow>
          (let did = src @ ''_'' @ take 12 content_hash;
               dtype = resolve_document_type w c requested_type filename
           in case dispatch w c src u did dtype of
                Inr result \<Rightarrow> Inr result
              | Inl e \<Rightarrow>
                  Inr (DocumentExtractionResult_init did src u
                         (if dtype = [] then ''unknown'' else dtype)
                         [] [] None None [] 0 (error_finished w - started w)
                         (Some (ErrorList [''Document processing failed: '' @ e]))
                         (error_stamped w))))"

section \<open>The specification's scoring formula\<close>

text \<open>
  The score as the specification words it: \<open>0.4 * min(100, total_words / 2) +
  0.3 * clamp(readability_score, 0, 100) + 0.3 * language_confidence * 100\<close>. It is compared
  with \<open>get_quality_score\<close> below.
\<close>

definition spec_score :: "TextQualityMetrics \<Rightarrow> real" where
  "spec_score m =
     4 / 10 * min 100 (of_int (total_words m) / 2) +
     3 / 10 * max 0 (min 100 (readability_score m)) +
     3 / 10 * (language_confidence m * 100)"

section \<open>Example inputs\<close>

text \<open>Concrete inputs at which the theorems below are instantiated or the code is evaluated.\<close>

definition metrics_good :: TextQualityMetrics where
  "metrics_good =
     \<lparr>total_chars = 600, total_words = 100, avg_word_length = 5, readability_score = 90,
      has_meaningful_content = True, language_confidence = 1\<rparr>"

text \<open>The metrics of the text \<open>?!\<close>: no word, two sentence pieces.\<close>

definition metrics_punct :: TextQualityMetrics where
  "metrics_punct =
     \<lparr>total_chars = 2, total_words = 0, avg_word_length = 0, readability_score = 100,
      has_meaningful_content = False, language_confidence = 0\<rparr>"

definition metrics_wide :: TextQualityMetrics where
  "metrics_wide =
     \<lparr>total_chars = 0, total_words = 200, avg_word_length = 0, readability_score = 100,
      has_meaningful_content = False, language_confidence = 2\<rparr>"

text \<open>
  A world in which every library call fails: the HTML parser raises \<open>boom\<close>, and pdfminer and
  the OCR loop raise \<open>bad\<close>; the deferred import succeeds and the result can be saved. The
  sample libraries round with the identity; no statement made at them depends on a rounded
  value.
\<close>

definition failing_pdf_library :: pdf_library where
  "failing_pdf_library =
     \<lparr>OCR_AVAILABLE = True, utf8_decode = (\<lambda>b. Some b), parsed_document = Inl ''bad'',
      pdfminer_text = Inl ''bad'', ocr_pages = Inl ''bad'', float_round = (\<lambda>x. x),
      deferred_import = None\<rparr>"

definition failing_world :: world where
  "failing_world =
     \<lparr>html = \<lparr>soup_outcome = Inl ''boom'', nfkc = (\<lambda>s. s), metadata_outcome = Inr []\<rparr>,
      pdf = failing_pdf_library,
      started = 0, stamped = 1, finished = 2, error_stamped = 3, error_finished = 4,
      pdf_elapsed = 1, save_outcome = None\<rparr>"

text \<open>A stand-in for SHA-256 that maps every payload to the same digest.\<close>

definition constant_digest :: "string \<Rightarrow> string" where
  "constant_digest b = ''0123456789abcdef0123456789abcdef0123456789abcdef0123456789abcdef''"

text \<open>A second world, in which everything succeeds, at other clock readings.\<close>

definition working_world :: world where
  "working_world =
     \<lparr>html = \<lparr>soup_outcome = Inr (''Title'', ''Some main content of the page''),
              nfkc = (\<lambda>s. s), metadata_outcome = Inr []\<rparr>,
      pdf = failing_pdf_library\<lparr>pdfminer_text := Inr ''Hello world''\<rparr>,
      started = 10, stamped = 11, finished = 12, error_stamped = 13, error_finished = 14,
      pdf_elapsed = 1, save_outcome = None\<rparr>"

text \<open>
  The message of the \<open>ModuleNotFoundError\<close> that the deferred import of
  \<open>_calculate_quality_metrics\<close> raises when \<open>pdf_to_text.py\<close> is loaded as
  \<open>pipelines.extract.pdf_to_text\<close>, the way \<open>html_to_text.py\<close> imports it: \<open>..utils\<close> then names
  the package \<open>pipelines.utils\<close>, and the repository has \<open>utils\<close> beside \<open>pipelines\<close>, not in it.
\<close>

definition pipelines_utils_missing :: string where
  "pipelines_utils_missing = ''No module named '' @ [CHR 0x27] @ ''pipelines.utils'' @ [CHR 0x27]"

text \<open>An extractor with OCR available, and helper results for the gate and the merge.\<close>

definition ocr_extractor :: PDFTextExtractor where
  "ocr_extractor = PDFTextExtractor_init True True 60 ''--oem 3 --psm 6''"

definition gate_sample :: helper_results where
  "gate_sample =
     \<lparr>metadata_result = PDFMetadata_default, direct_result = (replicate 2000 CHR ''x'', 10),
      ocr_result = ([], 0), import_result = Some pipelines_utils_missing\<rparr>"

definition short_sample :: helper_results where
  "short_sample =
     \<lparr>metadata_result = PDFMetadata_default, direct_result = (''12345'', 10),
      ocr_result = ([], 0), import_result = Some pipelines_utils_missing\<rparr>"

definition ocr_sample_text :: string where
  "ocr_sample_text = concat (replicate 100 ''word.'')"

definition hybrid_sample :: helper_results where
  "hybrid_sample =
     \<lparr>metadata_result = PDFMetadata_default, direct_result = (replicate 100 CHR ''x'', 50),
      ocr_result = (ocr_sample_text, 40), import_result = Some pipelines_utils_missing\<rparr>"

text \<open>A PDF with an embedded text layer, read where the deferred import fails.\<close>

definition repo_pdf_library :: pdf_library where
  "repo_pdf_library =
     \<lparr>OCR_AVAILABLE = True, utf8_decode = (\<lambda>b. Some b),
      parsed_document = Inr \<lparr>info = None, page_count = 1, is_encrypted = False\<rparr>,
      pdfminer_text = Inr ''Hello world'', ocr_pages = Inr [], float_round = (\<lambda>x. x),
      deferred_import = Some pipelines_utils_missing\<rparr>"

text \<open>A page text with indentation, runs of blanks, blank lines and short or numeric lines.\<close>

definition sample_page :: string where
  "sample_page = ''  Flight   training for '' @ [tab] @ ''pilots '' @ [newline, newline, newline, newline] @
     ''Menu1'' @ [newline] @ ''12345 67890 12345 67890 12345'' @ [newline] @ ''Call us today  ''"

section \<open>Shapes of cleaned text\<close>

text \<open>
  Predicates used in the proofs about the cleaners: a text without tabs and without two
  adjacent spaces, a text in which no newline is followed by whitespace, and a line that is
  not empty and neither starts nor ends with whitespace.
\<close>

fun single_spaced :: "string \<Rightarrow> bool" where
  "single_spaced [] = True"
| "single_spaced [c] = (c \<noteq> tab)"
| "single_spaced (c # d # cs) = (c \<noteq> tab \<and> \<not> (c = CHR '' '' \<and> d = CHR '' '') \<and> single_spaced (d # cs))"

fun no_blank_run :: "string \<Rightarrow> bool" where
  "no_blank_run [] = True"
| "no_blank_run (c # cs) = ((c = newline \<longrightarrow> cs = [] \<or> \<not> isspace (hd cs)) \<and> no_blank_run cs)"

definition trimmed :: "string \<Rightarrow> bool" where
  "trimmed l = (l \<noteq> [] \<and> \<not> isspace (hd l) \<and> \<not> isspace (last l))"


section \<open>Properties of the normalisation\<close>

text \<open>
  \<open>unicodedata.normalize('NFKC', text)\<close> is a parameter of \<open>clean_text\<close>. What the idempotence
  of the cleaner needs of it is stated of the library function alone, on every text:
  normalising twice is normalising once (Unicode Standard Annex 15); the empty text, the
  space and the newline are in normal form; and a whitespace character is a boundary of the
  normalisation, that is, a text around a whitespace character is in normal form exactly when
  the part before it, the character itself and the part after it are. The last law holds of
  NFKC because a whitespace character either has a compatibility decomposition (such as the
  no-break space U+00A0), so that no text holding it is in normal form, or is a starter that
  composes with no character before or after it.
\<close>

definition nfkc_laws :: "(string \<Rightarrow> string) \<Rightarrow> bool" where
  "nfkc_laws nf =
     ((\<forall>t. nf (nf t) = nf t) \<and>
      nf [] = [] \<and> nf '' '' = '' '' \<and> nf [newline] = [newline] \<and>
      (\<forall>a c b. isspace c \<longrightarrow>
         (nf (a @ c # b) = a @ c # b) = (nf a = a \<and> nf [c] = [c] \<and> nf b = b)))"

text \<open>
  A normalisation with these properties that is not the identity: NFKC on the code points
  whose normal form is again one code point below U+0100. It turns the no-break space into a
  space, the ordinal indicators U+00AA and U+00BA into \<open>a\<close> and \<open>o\<close>, and the superscripts
  U+00B2, U+00B3 and U+00B9 into digits. (The normal forms of U+00A8, U+00AF, U+00B4, U+00B5,
  U+00B8, U+00BC, U+00BD and U+00BE hold code points from U+0100 on; they are left as they
  are here.)
\<close>

definition nfkc_char :: "char \<Rightarrow> char" where
  "nfkc_char c =
     (if cp c = 160 then CHR '' ''
      else if cp c = 170 then CHR ''a''
      else if cp c = 178 then CHR ''2''
      else if cp c = 179 then CHR ''3''
      else if cp c = 185 then CHR ''1''
      else if cp c = 186 then CHR ''o''
      else c)"

definition nfkc_latin1 :: "string \<Rightarrow> string" where
  "nfkc_latin1 t = map nfkc_char t"

text \<open>A page text with a no-break space, a superscript, runs of blanks and a short line.\<close>

definition sample_nbsp_page :: string where
  "sample_nbsp_page = [CHR 0xA0] @ ''Flight'' @ [CHR 0xA0, tab] @ ''training for  pilots'' @ [CHR 0xB2] @
     [newline, newline, CHR 0xA0, newline] @ ''Menu'' @ [CHR 0xB9] @ [newline] @ ''Call us today'' @ [CHR 0xA0]"

text \<open>
  The pieces of a text between its whitespace characters, as \<open>re.split(r'\s', text)\<close> gives
  them, and those of them that are not empty, as \<open>text.split()\<close> gives them. The proof that a
  cleaned text is in normal form follows these pieces through the cleaning steps.
\<close>

fun fields :: "string \<Rightarrow> string list" where
  "fields [] = [[]]"
| "fields (c # cs) =
     (if isspace c then [] # fields cs
      else (case fields cs of [] \<Rightarrow> [[c]] | w # ws \<Rightarrow> (c # w) # ws))"

definition tokens :: "string \<Rightarrow> string list" where
  "tokens t = filter (\<lambda>w. w \<noteq> []) (fields t)"
section \<open>The quality scorer\<close>

text \<open>
  Claim C8. For every text the metrics computed by \<open>_calculate_quality_metrics\<close> have
  \<open>language_confidence = 0\<close> and \<open>avg_word_length = 0\<close> when \<open>total_words = 0\<close>, and none of
  \<open>total_chars\<close>, \<open>total_words\<close>, \<open>avg_word_length\<close>, \<open>readability_score\<close>,
  \<open>language_confidence\<close> is negative.
\<close>

theorem metrics_invariant:
  "(total_words (calculate_quality_metrics t) = 0 \<longrightarrow>
      language_confidence (calculate_quality_metrics t) = 0 \<and>
      avg_word_length (calculate_quality_metrics t) = 0) \<and>
   0 \<le> total_chars (calculate_quality_metrics t) \<and>
   0 \<le> total_words (calculate_quality_metrics t) \<and>
   0 \<le> avg_word_length (calculate_quality_metrics t) \<and>
   0 \<le> readability_score (calculate_quality_metrics t) \<and>
   0 \<le> language_confidence (calculate_quality_metrics t)"
  by (simp add: calculate_quality_metrics_def TextQualityMetrics_default_def Let_def)

theorem metrics_invariant_witness:
  "total_words (calculate_quality_metrics ''?!'') = 0 \<and>
   language_confidence (calculate_quality_metrics ''?!'') = 0 \<and>
   avg_word_length (calculate_quality_metrics ''?!'') = 0 \<and>
   readability_score (calculate_quality_metrics ''?!'') = 100"
proof -
  have w: "total_words (calculate_quality_metrics ''?!'') = 0" by code_simp
  have r: "readability_score (calculate_quality_metrics ''?!'') = 100" by code_simp
  from w r metrics_invariant [of "''?!''"] show ?thesis by simp
qed

text \<open>
  Claim C4, as stated, fails: \<open>get_quality_score\<close> returns 0 for metrics without words, where
  the formula gives 30 for the metrics of the text \<open>?!\<close>; and for metrics whose
  \<open>language_confidence\<close> is 2 the score is 130.
\<close>

theorem get_quality_score_counterexample:
  "calculate_quality_metrics ''?!'' = metrics_punct \<and>
   get_quality_score metrics_punct = 0 \<and> spec_score metrics_punct = 30 \<and>
   get_quality_score metrics_punct \<noteq> spec_score metrics_punct \<and>
   get_quality_score metrics_wide = 130 \<and> \<not> get_quality_score metrics_wide \<le> 100"
proof -
  have m: "calculate_quality_metrics ''?!'' = metrics_punct"
    unfolding metrics_punct_def by code_simp
  have g: "get_quality_score metrics_punct = 0"
    by (simp add: get_quality_score_def metrics_punct_def)
  have s: "spec_score metrics_punct = 30"
    by (simp add: spec_score_def metrics_punct_def)
  have w: "get_quality_score metrics_wide = 130"
    by (simp add: get_quality_score_def metrics_wide_def)
  from m g s w show ?thesis by simp
qed

text \<open>
  Claim C4, amended. \<open>get_quality_score\<close> returns 0 when \<open>total_words\<close> is 0 and the weighted
  formula otherwise; the result lies in \<open>[0, 100]\<close> whenever \<open>total_words\<close> is not negative and
  \<open>language_confidence\<close> lies in \<open>[0, 1]\<close>.
\<close>

theorem get_quality_score_amended:
  "get_quality_score m = (if total_words m = 0 then 0 else spec_score m) \<and>
   (0 \<le> total_words m \<and> 0 \<le> language_confidence m \<and> language_confidence m \<le> 1 \<longrightarrow>
      0 \<le> get_quality_score m \<and> get_quality_score m \<le> 100)"
proof -
  have eq: "get_quality_score m = (if total_words m = 0 then 0 else spec_score m)"
    by (simp add: get_quality_score_def spec_score_def Let_def algebra_simps)
  have rng: "0 \<le> get_quality_score m \<and> get_quality_score m \<le> 100"
    if w: "0 \<le> total_words m" and l0: "0 \<le> language_confidence m"
      and l1: "language_confidence m \<le> 1"
  proof (cases "total_words m = 0")
    case True
    then show ?thesis by (simp add: get_quality_score_def)
  next
    case False
    define a where "a = min 100 ((of_int (total_words m) :: real) / 2)"
    define b where "b = max 0 (min 100 (readability_score m))"
    have a: "0 \<le> a \<and> a \<le> 100" using w by (simp add: a_def)
    have b: "0 \<le> b \<and> b \<le> 100" by (simp add: b_def)
    have "get_quality_score m = 4 / 10 * a + 3 / 10 * b + 3 / 10 * (language_confidence m * 100)"
      using False by (simp add: eq spec_score_def a_def b_def)
    with a b l0 l1 show ?thesis by simp
  qed
  from eq rng show ?thesis by blast
qed

theorem get_quality_score_amended_witness:
  "get_quality_score metrics_good = 77 \<and> spec_score metrics_good = 77 \<and>
   0 \<le> get_quality_score metrics_good \<and> get_quality_score metrics_good \<le> 100"
proof -
  have s: "spec_score metrics_good = 77" by (simp add: spec_score_def metrics_good_def)
  have h: "total_words metrics_good \<noteq> 0 \<and> 0 \<le> total_words metrics_good \<and>
      0 \<le> language_confidence metrics_good \<and> language_confidence metrics_good \<le> 1"
    by (simp add: metrics_good_def)
  from s h get_quality_score_amended [of metrics_good] show ?thesis by simp
qed

section \<open>The document identifier\<close>

lemma document_id_html: "document_id (process_html_document w src u did) = did"
  by (simp add: process_html_document_def DocumentExtractionResult_init_def Let_def)

lemma document_id_pdf: "document_id (process_pdf_document w b src u did) = did"
  by (simp add: process_pdf_document_def DocumentExtractionResult_init_def Let_def)

lemma document_id_dispatch:
  "dispatch w c src u did dtype = Inr r \<Longrightarrow> document_id r = did"
  by (auto simp: dispatch_def document_id_html document_id_pdf split: if_splits option.splits)

text \<open>
  Claim C9. When the content can be hashed, every call of \<open>process_document\<close> returns a record
  whose \<open>document_id\<close> is \<open>source_name\<close>, an underscore and the first 12 characters of the
  content hash; so two calls with the same content and \<open>source_name\<close> give the same
  \<open>document_id\<close>, whatever the clock readings, the library outcomes, the URL, the requested
  type and the file name of either call are. When hashing raises (a \<open>str\<close> with a lone
  surrogate), both calls raise that exception and no \<open>document_id\<close> is computed.
\<close>

theorem document_id_deterministic:
  "(generate_content_hash H c = Inr h \<longrightarrow>
      (\<exists>r r'. process_document H w c src u t f = Inr r \<and>
              process_document H w' c src u' t' f' = Inr r' \<and>
              document_id r = src @ ''_'' @ take 12 h \<and>
              document_id r' = document_id r)) \<and>
   (generate_content_hash H c = Inl e \<longrightarrow>
      process_document H w c src u t f = Inl e \<and>
      process_document H w' c src u' t' f' = Inl e)"
proof (intro conjI impI)
  assume h: "generate_content_hash H c = Inr h"
  have "\<exists>r. process_document H w0 c src u0 t0 f0 = Inr r \<and> document_id r = src @ ''_'' @ take 12 h"
    for w0 u0 t0 f0
    unfolding process_document_def Let_def
    by (auto simp: h DocumentExtractionResult_init_def dest: document_id_dispatch split: sum.splits)
  from this [of w u t f] this [of w' u' t' f']
  show "\<exists>r r'. process_document H w c src u t f = Inr r \<and>
              process_document H w' c src u' t' f' = Inr r' \<and>
              document_id r = src @ ''_'' @ take 12 h \<and>
              document_id r' = document_id r"
    by auto
next
  assume e: "generate_content_hash H c = Inl e"
  show "process_document H w c src u t f = Inl e"
    by (simp add: process_document_def e)
  show "process_document H w' c src u' t' f' = Inl e"
    by (simp add: process_document_def e)
qed

theorem document_id_deterministic_witness:
  "(\<exists>r r'. process_document constant_digest failing_world (StrContent ''<html>'') ''faa''
             ''http://a'' None None = Inr r \<and>
           process_document constant_digest working_world (StrContent ''<html>'') ''faa''
             ''http://b'' (Some ''pdf'') (Some ''a.pdf'') = Inr r' \<and>
           document_id r = ''faa_0123456789ab'' \<and> document_id r' = document_id r) \<and>
   process_document constant_digest failing_world LoneSurrogateStr ''faa''
      ''http://a'' None None = Inl ''UnicodeEncodeError: surrogates not allowed'' \<and>
   process_document constant_digest working_world LoneSurrogateStr ''faa''
      ''http://b'' (Some ''pdf'') (Some ''a.pdf'') = Inl ''UnicodeEncodeError: surrogates not allowed''"
proof -
  have digest: "generate_content_hash constant_digest (StrContent ''<html>'') =
      Inr ''0123456789abcdef0123456789abcdef0123456789abcdef0123456789abcdef''"
    by (simp add: generate_content_hash_def constant_digest_def)
  have raises: "generate_content_hash constant_digest LoneSurrogateStr =
      Inl ''UnicodeEncodeError: surrogates not allowed''"
    by (simp add: generate_content_hash_def)
  note returns = document_id_deterministic [of constant_digest "StrContent ''<html>''"
      "''0123456789abcdef0123456789abcdef0123456789abcdef0123456789abcdef''"
      failing_world "''faa''" "''http://a''" None None working_world "''http://b''"
      "Some ''pdf''" "Some ''a.pdf''" "[]"]
  note raising = document_id_deterministic [of constant_digest LoneSurrogateStr "[]"
      failing_world "''faa''" "''http://a''" None None working_world "''http://b''"
      "Some ''pdf''" "Some ''a.pdf''" "''UnicodeEncodeError: surrogates not allowed''"]
  from conjunct1 [OF returns] digest
  have 1: "\<exists>r r'. process_document constant_digest failing_world (StrContent ''<html>'') ''faa''
             ''http://a'' None None = Inr r \<and>
           process_document constant_digest working_world (StrContent ''<html>'') ''faa''
             ''http://b'' (Some ''pdf'') (Some ''a.pdf'') = Inr r' \<and>
           document_id r = ''faa_0123456789ab'' \<and> document_id r' = document_id r"
    by simp
  from conjunct2 [OF raising] raises
  have 2: "process_document constant_digest failing_world LoneSurrogateStr ''faa''
      ''http://a'' None None = Inl ''UnicodeEncodeError: surrogates not allowed'' \<and>
   process_document constant_digest working_world LoneSurrogateStr ''faa''
      ''http://b'' (Some ''pdf'') (Some ''a.pdf'') = Inl ''UnicodeEncodeError: surrogates not allowed''"
    by simp
  from 1 2 show ?thesis by simp
qed

section \<open>PDF dates\<close>

text \<open>
  Claim C7, as stated, fails: the function checks neither digits nor ranges, so malformed
  dates that keep the prefix \<open>D:\<close> and at least eight further characters do not yield \<open>None\<close>.
\<close>

theorem parse_pdf_date_counterexample:
  "parse_pdf_date (PdfStr ''D:abcdefgh'') = Some ''abcd-ef-gh 00:00:00'' \<and>
   parse_pdf_date (PdfStr ''D:20231340256199'') = Some ''2023-13-40 25:61:99'' \<and>
   parse_pdf_date (PdfStr ''D:202301011'') = Some ''2023-01-01 1:00:00''"
  by (simp add: parse_pdf_date_def truthy_def startswith_def slice_def)

text \<open>
  Claim C7, amended. \<open>_parse_pdf_date\<close> returns on every input. The result is a string exactly
  when the input is a \<open>str\<close> that starts with \<open>D:\<close> and has at least eight further characters,
  whatever these are; the string is cut from the characters after the prefix without
  validation. A date of the form \<open>D:YYYYMMDDHHMMSS\<close>, with or without a suffix, gives
  \<open>YYYY-MM-DD HH:MM:SS\<close>. Every other input (missing, empty, not a \<open>str\<close>, no prefix, fewer than
  eight characters) gives \<open>None\<close>.
\<close>

theorem parse_pdf_date_amended:
  "(parse_pdf_date v \<noteq> None) = (\<exists>s. v = PdfStr s \<and> startswith s ''D:'' \<and> 10 \<le> length s) \<and>
   (length ds = 14 \<longrightarrow>
      parse_pdf_date (PdfStr (''D:'' @ ds @ rest)) =
        Some (slice 0 4 ds @ ''-'' @ slice 4 6 ds @ ''-'' @ slice 6 8 ds @ '' '' @
              slice 8 10 ds @ '':'' @ slice 10 12 ds @ '':'' @ slice 12 14 ds))"
proof -
  have a: "(parse_pdf_date v \<noteq> None) = (\<exists>s. v = PdfStr s \<and> startswith s ''D:'' \<and> 10 \<le> length s)"
    by (cases v) (auto simp: parse_pdf_date_def truthy_def startswith_def slice_def Let_def)
  have b: "parse_pdf_date (PdfStr (''D:'' @ ds @ rest)) =
        Some (slice 0 4 ds @ ''-'' @ slice 4 6 ds @ ''-'' @ slice 6 8 ds @ '' '' @
              slice 8 10 ds @ '':'' @ slice 10 12 ds @ '':'' @ slice 12 14 ds)"
    if "length ds = 14"
    using that by (simp add: parse_pdf_date_def truthy_def startswith_def slice_def Let_def)
  from a b show ?thesis by blast
qed

theorem parse_pdf_date_amended_witness:
  "parse_pdf_date (PdfStr ''D:20230115123045+0100'') = Some ''2023-01-15 12:30:45'' \<and>
   parse_pdf_date (PdfStr ''2023-01-15'') = None \<and>
   parse_pdf_date (PdfBytes ''D:20230115123045'') = None \<and>
   parse_pdf_date (PdfStr []) = None"
proof -
  have l: "length ''20230115123045'' = 14" by simp
  have 1: "parse_pdf_date (PdfStr ''D:20230115123045+0100'') = Some ''2023-01-15 12:30:45''"
    using parse_pdf_date_amended [of "PdfStr []" "''20230115123045''" "''+0100''"] l
    by (simp add: slice_def)
  have 2: "parse_pdf_date (PdfStr ''2023-01-15'') = None"
    using parse_pdf_date_amended [of "PdfStr ''2023-01-15''" "[]" "[]"]
    by (simp add: startswith_def)
  have 3: "parse_pdf_date (PdfBytes ''D:20230115123045'') = None"
    using parse_pdf_date_amended [of "PdfBytes ''D:20230115123045''" "[]" "[]"]
    by simp
  have 4: "parse_pdf_date (PdfStr []) = None"
    using parse_pdf_date_amended [of "PdfStr []" "[]" "[]"]
    by (simp add: startswith_def)
  from 1 2 3 4 show ?thesis by simp
qed

section \<open>Failure records of the pipeline\<close>

lemma detect_document_type_range:
  "detect_document_type d c f = ''html'' \<or> detect_document_type d c f = ''pdf''"
  by (simp add: detect_document_type_def Let_def split: option.splits content.splits)

lemma dispatch_unsupported:
  "t \<noteq> ''html'' \<Longrightarrow> t \<noteq> ''pdf'' \<Longrightarrow>
   dispatch w c src u did t = Inl (''Unsupported document type: '' @ t)"
  by (simp add: dispatch_def)

lemma dispatch_save_raises:
  "save_outcome w = Some e \<Longrightarrow> t = ''html'' \<or> t = ''pdf'' \<Longrightarrow> dispatch w c src u did t = Inl e"
  by (auto simp: dispatch_def)

lemma dispatch_html:
  "save_outcome w = None \<Longrightarrow>
   dispatch w c src u did ''html'' =
     Inr ((process_html_document w src u did)\<lparr>doc_processing_time := finished w - started w\<rparr>)"
  by (simp add: dispatch_def)

lemma failed_cleaning_record:
  "\<not> extraction_success (clean_html (html w)) \<Longrightarrow>
   extracted_text (process_html_document w src u did) = [] \<and>
   doc_confidence_score (process_html_document w src u did) = 0 \<and>
   doc_extraction_method (process_html_document w src u did) = []"
  by (simp add: process_html_document_def DocumentExtractionResult_init_def Let_def)

text \<open>
  Claim C1, as stated, fails: for an unsupported document type the record returned has the
  constructor's default \<open>extraction_method\<close>, the empty string, not \<open>failed\<close>; when HTML cleaning
  fails the field \<open>errors\<close> holds the cleaner's message itself, a string, not a list; and for a
  \<open>str\<close> with a lone surrogate the call raises at line 212, whatever the document type and the
  outcome of the saving are, and returns no record.
\<close>

theorem process_document_failure_counterexample:
  "(case process_document constant_digest failing_world (StrContent ''x'')
           ''faa'' ''http://a'' (Some ''docx'') None of
      Inr r \<Rightarrow>
        doc_extraction_method r = [] \<and> doc_extraction_method r \<noteq> ''failed'' \<and>
        doc_errors r = ErrorList [''Document processing failed: Unsupported document type: docx'']
    | Inl e \<Rightarrow> False) \<and>
   (case process_document constant_digest failing_world (StrContent ''x'')
           ''faa'' ''http://a'' (Some ''html'') None of
      Inr r \<Rightarrow> doc_extraction_method r = [] \<and> doc_errors r = ErrorStr ''boom''
    | Inl e \<Rightarrow> False) \<and>
   process_document constant_digest failing_world LoneSurrogateStr
      ''faa'' ''http://a'' (Some ''docx'') None = Inl ''UnicodeEncodeError: surrogates not allowed'' \<and>
   process_document constant_digest (failing_world\<lparr>save_outcome := Some ''disk full''\<rparr>)
      LoneSurrogateStr ''faa'' ''http://a'' None None =
     Inl ''UnicodeEncodeError: surrogates not allowed''"
  by (simp add: process_document_def generate_content_hash_def constant_digest_def
      resolve_document_type_def dispatch_def process_html_document_def clean_html_def
      cleaning_failed_def failing_world_def DocumentExtractionResult_init_def
      errors_or_empty_def Let_def)

text \<open>
  Claim C1, amended. When hashing the content raises, \<open>process_document\<close> raises that exception.
  When the content can be hashed, \<open>process_document\<close> returns a record, and on each of the three
  failures, read on the document type \<open>dt\<close> that is requested or detected, the record has empty
  \<open>extracted_text\<close>, \<open>confidence_score = 0\<close> and \<open>extraction_method\<close> the empty string (only the
  PDF extractor's own failure record carries \<open>failed\<close>). For an unsupported document type and
  for an exception that leaves the dispatch, \<open>errors\<close> is the one-element list holding
  \<open>Document processing failed:\<close> and the message. What \<open>errors\<close> holds after a failed HTML
  cleaning is left open.
\<close>

theorem process_document_failure:
  "(generate_content_hash H c = Inl x \<longrightarrow> process_document H w c src u req f = Inl x) \<and>
   (generate_content_hash H c = Inr h \<and> resolve_document_type w c req f = dt \<longrightarrow>
      (\<exists>r. process_document H w c src u req f = Inr r \<and>
         (dt \<noteq> ''html'' \<and> dt \<noteq> ''pdf'' \<longrightarrow>
            extracted_text r = [] \<and> doc_confidence_score r = 0 \<and>
            doc_extraction_method r = [] \<and>
            doc_errors r =
              ErrorList [''Document processing failed: Unsupported document type: '' @ dt]) \<and>
         ((dt = ''html'' \<or> dt = ''pdf'') \<and> save_outcome w = Some e \<longrightarrow>
            extracted_text r = [] \<and> doc_confidence_score r = 0 \<and>
            doc_extraction_method r = [] \<and>
            doc_errors r = ErrorList [''Document processing failed: '' @ e]) \<and>
         (dt = ''html'' \<and> save_outcome w = None \<and>
          \<not> extraction_success (clean_html (html w)) \<longrightarrow>
            extracted_text r = [] \<and> doc_confidence_score r = 0 \<and>
            doc_extraction_method r = [])))"
proof (intro conjI impI)
  assume x: "generate_content_hash H c = Inl x"
  show "process_document H w c src u req f = Inl x"
    by (simp add: process_document_def x)
next
  assume a: "generate_content_hash H c = Inr h \<and> resolve_document_type w c req f = dt"
  define did where "did = src @ ''_'' @ take 12 h"
  define failure where "failure msg =
      DocumentExtractionResult_init did src u (if dt = [] then ''unknown'' else dt)
        [] [] None None [] 0 (error_finished w - started w)
        (Some (ErrorList [''Document processing failed: '' @ msg])) (error_stamped w)" for msg
  have failure_fields:
    "extracted_text (failure msg) = [] \<and> doc_confidence_score (failure msg) = 0 \<and>
     doc_extraction_method (failure msg) = [] \<and>
     doc_errors (failure msg) = ErrorList [''Document processing failed: '' @ msg]" for msg
    by (simp add: failure_def DocumentExtractionResult_init_def errors_or_empty_def)
  have pd: "process_document H w c src u req f =
      (case dispatch w c src u did dt of Inr result \<Rightarrow> Inr result | Inl m \<Rightarrow> Inr (failure m))"
    using a by (simp add: process_document_def Let_def did_def failure_def split: sum.splits)
  show "\<exists>r. process_document H w c src u req f = Inr r \<and>
         (dt \<noteq> ''html'' \<and> dt \<noteq> ''pdf'' \<longrightarrow>
            extracted_text r = [] \<and> doc_confidence_score r = 0 \<and>
            doc_extraction_method r = [] \<and>
            doc_errors r =
              ErrorList [''Document processing failed: Unsupported document type: '' @ dt]) \<and>
         ((dt = ''html'' \<or> dt = ''pdf'') \<and> save_outcome w = Some e \<longrightarrow>
            extracted_text r = [] \<and> doc_confidence_score r = 0 \<and>
            doc_extraction_method r = [] \<and>
            doc_errors r = ErrorList [''Document processing failed: '' @ e]) \<and>
         (dt = ''html'' \<and> save_outcome w = None \<and>
          \<not> extraction_success (clean_html (html w)) \<longrightarrow>
            extracted_text r = [] \<and> doc_confidence_score r = 0 \<and>
            doc_extraction_method r = [])"
  proof (cases "dt = ''html'' \<or> dt = ''pdf''")
    case False
    then have "dispatch w c src u did dt = Inl (''Unsupported document type: '' @ dt)"
      by (simp add: dispatch_unsupported)
    then have "process_document H w c src u req f = Inr (failure (''Unsupported document type: '' @ dt))"
      by (simp add: pd)
    with False failure_fields [of "''Unsupported document type: '' @ dt"] show ?thesis
      by simp
  next
    case supported: True
    show ?thesis
    proof (cases "save_outcome w")
      case (Some e')
      with supported have "dispatch w c src u did dt = Inl e'"
        by (simp add: dispatch_save_raises)
      then have "process_document H w c src u req f = Inr (failure e')"
        by (simp add: pd)
      with supported Some failure_fields [of e'] show ?thesis
        by auto
    next
      case None
      obtain r where r: "process_document H w c src u req f = Inr r"
        by (cases "dispatch w c src u did dt") (simp_all add: pd)
      have "extracted_text r = [] \<and> doc_confidence_score r = 0 \<and> doc_extraction_method r = []"
        if html: "dt = ''html''" and failed: "\<not> extraction_success (clean_html (html w))"
      proof -
        from r have "r = (process_html_document w src u did)\<lparr>doc_processing_time := finished w - started w\<rparr>"
          by (simp add: pd html dispatch_html [OF None])
        with failed_cleaning_record [OF failed, of src u did] show ?thesis
          by simp
      qed
      with r supported None show ?thesis
        by auto
    qed
  qed
qed

theorem process_document_failure_witness:
  "process_document constant_digest failing_world LoneSurrogateStr
      ''faa'' ''http://a'' (Some ''docx'') None = Inl ''UnicodeEncodeError: surrogates not allowed'' \<and>
   (\<exists>r. process_document constant_digest failing_world (StrContent ''x'')
           ''faa'' ''http://a'' (Some ''docx'') None = Inr r \<and>
        extracted_text r = [] \<and> doc_confidence_score r = 0 \<and> doc_extraction_method r = [] \<and>
        doc_errors r =
          ErrorList [''Document processing failed: Unsupported document type: docx'']) \<and>
   (\<exists>r. process_document constant_digest (failing_world\<lparr>save_outcome := Some ''disk full''\<rparr>)
           (StrContent ''x'') ''faa'' ''http://a'' None None = Inr r \<and>
        extracted_text r = [] \<and> doc_confidence_score r = 0 \<and> doc_extraction_method r = [] \<and>
        doc_errors r = ErrorList [''Document processing failed: disk full'']) \<and>
   (\<exists>r. process_document constant_digest failing_world (StrContent ''x'')
           ''faa'' ''http://a'' None None = Inr r \<and>
        extracted_text r = [] \<and> doc_confidence_score r = 0 \<and> doc_extraction_method r = [])"
proof -
  let ?digest = "''0123456789abcdef0123456789abcdef0123456789abcdef0123456789abcdef''"
  have raises: "generate_content_hash constant_digest LoneSurrogateStr =
      Inl ''UnicodeEncodeError: surrogates not allowed''"
    by (simp add: generate_content_hash_def)
  have digest: "generate_content_hash constant_digest (StrContent ''x'') = Inr ?digest"
    by (simp add: generate_content_hash_def constant_digest_def)
  have requested: "resolve_document_type w (StrContent ''x'') (Some ''docx'') None = ''docx''" for w
    by (simp add: resolve_document_type_def)
  have detected: "resolve_document_type w (StrContent ''x'') None None = ''html''" for w
    by (simp add: resolve_document_type_def detect_document_type_def Let_def)
  have saving: "save_outcome (failing_world\<lparr>save_outcome := Some ''disk full''\<rparr>) = Some ''disk full''"
    by simp
  have cleaning: "save_outcome failing_world = None \<and>
      \<not> extraction_success (clean_html (html failing_world))"
    by (simp add: failing_world_def clean_html_def cleaning_failed_def)
  from raises process_document_failure [of constant_digest LoneSurrogateStr
      "''UnicodeEncodeError: surrogates not allowed''" failing_world "''faa''" "''http://a''"
      "Some ''docx''" None "[]" "[]" "[]"]
  have 0: "process_document constant_digest failing_world LoneSurrogateStr
      ''faa'' ''http://a'' (Some ''docx'') None = Inl ''UnicodeEncodeError: surrogates not allowed''"
    by simp
  from digest requested process_document_failure [of constant_digest "StrContent ''x''" "[]"
      failing_world "''faa''" "''http://a''" "Some ''docx''" None ?digest "''docx''" "[]"]
  have 1: "\<exists>r. process_document constant_digest failing_world (StrContent ''x'')
           ''faa'' ''http://a'' (Some ''docx'') None = Inr r \<and>
        extracted_text r = [] \<and> doc_confidence_score r = 0 \<and> doc_extraction_method r = [] \<and>
        doc_errors r =
          ErrorList [''Document processing failed: Unsupported document type: docx'']"
    by simp
  from digest detected saving process_document_failure [of constant_digest "StrContent ''x''" "[]"
      "failing_world\<lparr>save_outcome := Some ''disk full''\<rparr>" "''faa''" "''http://a''" None None
      ?digest "''html''" "''disk full''"]
  have 2: "\<exists>r. process_document constant_digest (failing_world\<lparr>save_outcome := Some ''disk full''\<rparr>)
           (StrContent ''x'') ''faa'' ''http://a'' None None = Inr r \<and>
        extracted_text r = [] \<and> doc_confidence_score r = 0 \<and> doc_extraction_method r = [] \<and>
        doc_errors r = ErrorList [''Document processing failed: disk full'']"
    by simp
  from digest detected cleaning process_document_failure [of constant_digest "StrContent ''x''" "[]"
      failing_world "''faa''" "''http://a''" None None ?digest "''html''" "[]"]
  have 3: "\<exists>r. process_document constant_digest failing_world (StrContent ''x'')
           ''faa'' ''http://a'' None None = Inr r \<and>
        extracted_text r = [] \<and> doc_confidence_score r = 0 \<and> doc_extraction_method r = []"
    by simp
  from 0 1 2 3 show ?thesis by blast
qed
section \<open>The PDF extractor\<close>

lemma rstrip_no_space: "\<forall>c \<in> set s. \<not> isspace c \<Longrightarrow> rstrip s = s"
  by (induction s) auto

lemma strip_no_space: "\<forall>c \<in> set s. \<not> isspace c \<Longrightarrow> strip s = s"
proof -
  assume a: "\<forall>c \<in> set s. \<not> isspace c"
  then have "dropWhile isspace s = s" by (cases s) auto
  with a show ?thesis by (simp add: strip_def lstrip_def rstrip_no_space)
qed

lemma finish_import_fails:
  "import_result h = Some e \<Longrightarrow> finish_extraction h t m s c = extraction_failed e t"
  by (simp add: finish_extraction_def pdf_calculate_quality_metrics_def Let_def)

lemma finish_import_ok:
  "import_result h = None \<Longrightarrow>
   finish_extraction h t m s c =
     \<lparr>result_text = clean_extracted_text s, metadata = metadata_result h,
      quality_metrics = calculate_quality_metrics (clean_extracted_text s),
      extraction_method = m, confidence_score = c, processing_time = t, errors = []\<rparr>"
  by (simp add: finish_extraction_def pdf_calculate_quality_metrics_def Let_def)

lemma merge_import_fails_msg:
  "merge_texts (Some e) d ot = Inl e' \<Longrightarrow> e' = e"
  by (auto simp: merge_texts_def pdf_calculate_quality_metrics_def split: if_splits)

lemma import_fails_everything_fails:
  assumes "import_result h = Some e"
  shows "fst (extract_from_pdf_with self h t) = extraction_failed e t"
proof -
  obtain d dc where d: "direct_result h = (d, dc)" by (cases "direct_result h")
  obtain ot oc where ot: "ocr_result h = (ot, oc)" by (cases "ocr_result h")
  show ?thesis
    using assms merge_import_fails_msg [of e d ot]
    by (auto simp: extract_from_pdf_with_def d ot finish_import_fails Let_def split: sum.splits)
qed

lemma ocr_attempted_iff:
  "ocr_attempted self h t = ocr_gate self (fst (direct_result h)) (snd (direct_result h))"
proof -
  obtain d dc where d: "direct_result h = (d, dc)" by (cases "direct_result h")
  obtain ot oc where ot: "ocr_result h = (ot, oc)" by (cases "ocr_result h")
  show ?thesis
    by (auto simp: ocr_attempted_def extract_from_pdf_with_def d ot Let_def split: sum.splits)
qed

lemma x_no_space: "\<not> isspace CHR ''x''"
  by (simp add: isspace_def cp_def)

lemma strip_replicate_x: "strip (replicate n CHR ''x'') = replicate n CHR ''x''"
  by (rule strip_no_space) (simp add: x_no_space)

lemma strip_ocr_sample_text: "strip ocr_sample_text = ocr_sample_text"
  unfolding ocr_sample_text_def
  by (rule strip_no_space) (auto simp: isspace_def cp_def)

lemma length_ocr_sample_text: "length ocr_sample_text = 500"
  by (simp add: ocr_sample_text_def length_concat sum_list_replicate)

lemma ocr_sample_text_meaningful: "has_meaningful_content (calculate_quality_metrics ocr_sample_text)"
  unfolding ocr_sample_text_def by code_simp

lemma direct_sample_not_meaningful:
  "\<not> has_meaningful_content (calculate_quality_metrics (replicate 100 CHR ''x''))"
  by code_simp

subsection \<open>The OCR gate and the selection\<close>

text \<open>
  What the selection does when the deferred import succeeds. OCR is attempted exactly when the
  gate holds; without it the method is \<open>direct\<close>; the hybrid branch takes the text that
  \<open>_merge_texts\<close> selects and the larger confidence.
\<close>

lemma direct_when_gate_closed:
  assumes "import_result h = None" and "direct_result h = (d, dc)" and "\<not> ocr_gate self d dc"
  shows "extraction_method (fst (extract_from_pdf_with self h t)) = ''direct'' \<and>
         confidence_score (fst (extract_from_pdf_with self h t)) = dc \<and>
         result_text (fst (extract_from_pdf_with self h t)) = clean_extracted_text d"
  using assms by (simp add: extract_from_pdf_with_def finish_import_ok)

lemma merge_texts_import_ok:
  "merge_texts None d ot =
     Inr (if d = [] then ot
          else if ot = [] then d
          else if has_meaningful_content (calculate_quality_metrics d) \<and>
                  \<not> has_meaningful_content (calculate_quality_metrics ot) then d
          else if has_meaningful_content (calculate_quality_metrics ot) \<and>
                  \<not> has_meaningful_content (calculate_quality_metrics d) then ot
          else if length ot \<le> length d then d else ot)"
  by (simp add: merge_texts_def pdf_calculate_quality_metrics_def)

lemma hybrid_when_ocr_longer:
  assumes "import_result h = None" and "direct_result h = (d, dc)" and "ocr_result h = (ot, oc)"
    and "ocr_gate self d dc" and "oc \<le> dc" and "ot \<noteq> []"
    and "length (strip d) < length (strip ot)"
  shows "extraction_method (fst (extract_from_pdf_with self h t)) = ''hybrid'' \<and>
         confidence_score (fst (extract_from_pdf_with self h t)) = max dc oc \<and>
         (\<exists>m. merge_texts None d ot = Inr m \<and>
              result_text (fst (extract_from_pdf_with self h t)) = clean_extracted_text m)"
  using assms
  by (simp add: extract_from_pdf_with_def finish_import_ok merge_texts_import_ok Let_def)

subsection \<open>Failures of the helpers\<close>

lemma method_import_ok:
  assumes "import_result h = None"
  shows "errors (fst (extract_from_pdf_with self h t)) = [] \<and>
         (extraction_method (fst (extract_from_pdf_with self h t)) = ''direct'' \<or>
          extraction_method (fst (extract_from_pdf_with self h t)) = ''ocr'' \<or>
          extraction_method (fst (extract_from_pdf_with self h t)) = ''hybrid'') \<and>
         metadata (fst (extract_from_pdf_with self h t)) = metadata_result h"
proof -
  obtain d dc where d: "direct_result h = (d, dc)" by (cases "direct_result h")
  obtain ot oc where ot: "ocr_result h = (ot, oc)" by (cases "ocr_result h")
  show ?thesis
    using assms
    by (simp add: extract_from_pdf_with_def d ot finish_import_ok merge_texts_import_ok Let_def)
qed

lemma metadata_default_when_parse_fails:
  "parsed_document lib = Inl e \<Longrightarrow> extract_metadata lib b = PDFMetadata_default"
  by (simp add: extract_metadata_def)

lemma metadata_of_result:
  "metadata (fst (extract_from_pdf_with self h t)) = metadata_result h \<or>
   metadata (fst (extract_from_pdf_with self h t)) = PDFMetadata_default"
proof (cases "import_result h")
  case None
  then show ?thesis using method_import_ok [of h self t] by simp
next
  case (Some e)
  then show ?thesis by (simp add: import_fails_everything_fails extraction_failed_def)
qed

text \<open>
  Claim C2, as stated, fails: when metadata extraction, direct extraction and OCR all fail,
  the call completes with method \<open>direct\<close> and an empty \<open>errors\<close> list; the three helpers only
  log their failure. Where the deferred import raises as well, \<open>errors\<close> has one entry, the
  message of the import, and none for the three failures.
\<close>

theorem helper_failures_counterexample:
  "parsed_document failing_pdf_library = Inl ''bad'' \<and>
   pdfminer_text failing_pdf_library = Inl ''bad'' \<and>
   ocr_pages failing_pdf_library = Inl ''bad'' \<and>
   ocr_attempted ocr_extractor (helpers_of failing_pdf_library ''%PDF-1.4'') 0 \<and>
   extraction_method (extract_from_pdf ocr_extractor failing_pdf_library 0 ''%PDF-1.4'') = ''direct'' \<and>
   errors (extract_from_pdf ocr_extractor failing_pdf_library 0 ''%PDF-1.4'') = [] \<and>
   errors (extract_from_pdf ocr_extractor
      (failing_pdf_library\<lparr>deferred_import := Some pipelines_utils_missing\<rparr>) 0 ''%PDF-1.4'') =
     [''PDF extraction failed: '' @ pipelines_utils_missing]"
proof -
  have g: "ocr_gate ocr_extractor [] 0"
    by (simp add: ocr_gate_def ocr_extractor_def PDFTextExtractor_init_def strip_def lstrip_def)
  have h: "direct_result (helpers_of failing_pdf_library ''%PDF-1.4'') = ([], 0) \<and>
      ocr_result (helpers_of failing_pdf_library ''%PDF-1.4'') = ([], 0) \<and>
      import_result (helpers_of failing_pdf_library ''%PDF-1.4'') = None"
    by (simp add: helpers_of_def failing_pdf_library_def extract_text_direct_def extract_text_ocr_def)
  have a: "ocr_attempted ocr_extractor (helpers_of failing_pdf_library ''%PDF-1.4'') 0"
    using g h by (simp add: ocr_attempted_iff)
  have r: "extraction_method (extract_from_pdf ocr_extractor failing_pdf_library 0 ''%PDF-1.4'') = ''direct'' \<and>
      errors (extract_from_pdf ocr_extractor failing_pdf_library 0 ''%PDF-1.4'') = []"
    using g h by (simp add: extract_from_pdf_def extract_from_pdf_with_def finish_import_ok)
  have f: "extract_from_pdf ocr_extractor
      (failing_pdf_library\<lparr>deferred_import := Some pipelines_utils_missing\<rparr>) 0 ''%PDF-1.4'' =
      extraction_failed pipelines_utils_missing 0"
    unfolding extract_from_pdf_def
    by (rule import_fails_everything_fails) (simp add: helpers_of_def)
  have l: "parsed_document failing_pdf_library = Inl ''bad'' \<and>
      pdfminer_text failing_pdf_library = Inl ''bad'' \<and>
      ocr_pages failing_pdf_library = Inl ''bad''"
    by (simp add: failing_pdf_library_def)
  have e: "errors (extraction_failed pipelines_utils_missing 0) =
      [''PDF extraction failed: '' @ pipelines_utils_missing]"
    by (simp add: extraction_failed_def)
  from l a r f e show ?thesis by simp
qed

text \<open>
  Claim C2, amended. \<open>extract_from_pdf\<close> returns a result on every input. When metadata
  extraction fails the metadata of the result is the default record; when direct extraction
  or OCR fails the helper yields the empty text with confidence 0. These failures are
  logged only and add no entry to \<open>errors\<close>: whenever the deferred import of
  \<open>_calculate_quality_metrics\<close> succeeds, so that no exception reaches the outer handler,
  \<open>errors\<close> is empty and the method is not \<open>failed\<close>.
\<close>

theorem helper_failures_amended:
  "(parsed_document lib = Inl e \<longrightarrow>
      metadata (extract_from_pdf self lib t b) = PDFMetadata_default) \<and>
   (pdfminer_text lib = Inl e \<longrightarrow> extract_text_direct lib = ([], 0)) \<and>
   (ocr_pages lib = Inl e \<longrightarrow> extract_text_ocr lib = ([], 0)) \<and>
   (deferred_import lib = None \<longrightarrow>
      errors (extract_from_pdf self lib t b) = [] \<and>
      extraction_method (extract_from_pdf self lib t b) \<noteq> ''failed'')"
proof (intro conjI impI)
  assume p: "parsed_document lib = Inl e"
  have "metadata_result (helpers_of lib b) = PDFMetadata_default"
    using p by (simp add: helpers_of_def metadata_default_when_parse_fails)
  with metadata_of_result [of self "helpers_of lib b" t]
  show "metadata (extract_from_pdf self lib t b) = PDFMetadata_default"
    by (auto simp: extract_from_pdf_def)
next
  assume "pdfminer_text lib = Inl e"
  then show "extract_text_direct lib = ([], 0)" by (simp add: extract_text_direct_def)
next
  assume "ocr_pages lib = Inl e"
  then show "extract_text_ocr lib = ([], 0)" by (simp add: extract_text_ocr_def)
next
  assume i: "deferred_import lib = None"
  then have "import_result (helpers_of lib b) = None" by (simp add: helpers_of_def)
  from method_import_ok [OF this, of self t]
  show "errors (extract_from_pdf self lib t b) = []"
    and "extraction_method (extract_from_pdf self lib t b) \<noteq> ''failed''"
    by (auto simp: extract_from_pdf_def)
qed

theorem helper_failures_amended_witness:
  "metadata (extract_from_pdf ocr_extractor failing_pdf_library 0 ''%PDF-1.4'') = PDFMetadata_default \<and>
   extract_text_direct failing_pdf_library = ([], 0) \<and>
   extract_text_ocr failing_pdf_library = ([], 0) \<and>
   errors (extract_from_pdf ocr_extractor failing_pdf_library 0 ''%PDF-1.4'') = [] \<and>
   extraction_method (extract_from_pdf ocr_extractor failing_pdf_library 0 ''%PDF-1.4'') \<noteq> ''failed''"
proof -
  have h: "parsed_document failing_pdf_library = Inl ''bad'' \<and>
      pdfminer_text failing_pdf_library = Inl ''bad'' \<and>
      ocr_pages failing_pdf_library = Inl ''bad'' \<and>
      deferred_import failing_pdf_library = None"
    by (simp add: failing_pdf_library_def)
  from h helper_failures_amended [of failing_pdf_library "''bad''" ocr_extractor 0 "''%PDF-1.4''"]
  show ?thesis by simp
qed

subsection \<open>The samples of the gate and of the merge\<close>

text \<open>
  Claim C5. The gate is as the claim says: OCR is attempted exactly when the fallback is
  enabled, the direct confidence is below \<open>ocr_min_confidence\<close> and the stripped direct text
  has fewer than 1000 characters. The code is evaluated here where the deferred import raises,
  as it does in this repository: for direct confidence 10 and a direct text of 2000
  characters OCR is not attempted, but the method of the result is \<open>failed\<close>, not \<open>direct\<close>;
  the same holds for a PDF read through the helpers of the file. For direct confidence 10
  and a text of 5 characters OCR is attempted.
\<close>

theorem ocr_gate_sample_fails:
  "\<not> ocr_attempted ocr_extractor gate_sample 0 \<and>
   extraction_method (fst (extract_from_pdf_with ocr_extractor gate_sample 0)) = ''failed'' \<and>
   errors (fst (extract_from_pdf_with ocr_extractor gate_sample 0)) =
     [''PDF extraction failed: '' @ pipelines_utils_missing] \<and>
   ocr_attempted ocr_extractor short_sample 0 \<and>
   extraction_method (extract_from_pdf ocr_extractor repo_pdf_library 0 ''%PDF-1.4'') = ''failed''"
proof -
  have g: "\<not> ocr_gate ocr_extractor (replicate 2000 CHR ''x'') 10"
    by (simp add: ocr_gate_def strip_replicate_x)
  have s: "ocr_gate ocr_extractor ''12345'' 10"
    by (simp add: ocr_gate_def ocr_extractor_def PDFTextExtractor_init_def strip_def lstrip_def
        isspace_def cp_def)
  have a: "\<not> ocr_attempted ocr_extractor gate_sample 0"
    using g by (simp add: ocr_attempted_iff gate_sample_def)
  have b: "ocr_attempted ocr_extractor short_sample 0"
    using s by (simp add: ocr_attempted_iff short_sample_def)
  have f: "fst (extract_from_pdf_with ocr_extractor gate_sample 0) =
      extraction_failed pipelines_utils_missing 0"
    by (rule import_fails_everything_fails) (simp add: gate_sample_def)
  have r: "extract_from_pdf ocr_extractor repo_pdf_library 0 ''%PDF-1.4'' =
      extraction_failed pipelines_utils_missing 0"
    unfolding extract_from_pdf_def
    by (rule import_fails_everything_fails) (simp add: helpers_of_def repo_pdf_library_def)
  from a b show ?thesis by (simp add: f r extraction_failed_def)
qed

text \<open>
  Claim C6. The code is evaluated where the deferred import raises: for a direct text of
  length 100 without meaningful content and an OCR text of length 500 with meaningful
  content, whose confidence does not exceed the direct one, OCR runs, and the result is
  the failure record, with method \<open>failed\<close> and empty text, since \<open>_merge_texts\<close> raises.
\<close>

theorem hybrid_sample_fails:
  "length (fst (direct_result hybrid_sample)) = 100 \<and>
   \<not> has_meaningful_content (calculate_quality_metrics (fst (direct_result hybrid_sample))) \<and>
   length (fst (ocr_result hybrid_sample)) = 500 \<and>
   has_meaningful_content (calculate_quality_metrics (fst (ocr_result hybrid_sample))) \<and>
   snd (ocr_result hybrid_sample) \<le> snd (direct_result hybrid_sample) \<and>
   ocr_attempted ocr_extractor hybrid_sample 0 \<and>
   extraction_method (fst (extract_from_pdf_with ocr_extractor hybrid_sample 0)) = ''failed'' \<and>
   result_text (fst (extract_from_pdf_with ocr_extractor hybrid_sample 0)) = []"
proof -
  have g: "ocr_gate ocr_extractor (replicate 100 CHR ''x'') 50"
    by (simp add: ocr_gate_def ocr_extractor_def PDFTextExtractor_init_def strip_replicate_x)
  have a: "ocr_attempted ocr_extractor hybrid_sample 0"
    using g by (simp add: ocr_attempted_iff hybrid_sample_def)
  have f: "fst (extract_from_pdf_with ocr_extractor hybrid_sample 0) =
      extraction_failed pipelines_utils_missing 0"
    by (rule import_fails_everything_fails) (simp add: hybrid_sample_def)
  have r: "extraction_method (fst (extract_from_pdf_with ocr_extractor hybrid_sample 0)) = ''failed'' \<and>
      result_text (fst (extract_from_pdf_with ocr_extractor hybrid_sample 0)) = []"
    by (simp add: f extraction_failed_def)
  have i: "length (fst (direct_result hybrid_sample)) = 100 \<and>
      \<not> has_meaningful_content (calculate_quality_metrics (fst (direct_result hybrid_sample))) \<and>
      length (fst (ocr_result hybrid_sample)) = 500 \<and>
      has_meaningful_content (calculate_quality_metrics (fst (ocr_result hybrid_sample))) \<and>
      snd (ocr_result hybrid_sample) \<le> snd (direct_result hybrid_sample)"
    using ocr_sample_text_meaningful direct_sample_not_meaningful length_ocr_sample_text
    by (simp add: hybrid_sample_def)
  from i a r show ?thesis by blast
qed

section \<open>The two text cleaners\<close>

lemma clean_lines_filter:
  "clean_lines ls = filter (\<lambda>l. 10 \<le> length l \<and> \<not> (alpha_ratio l < 3 / 10 \<and> 20 < length l)) (map strip ls)"
  by (induction ls) (auto simp: Let_def)

lemma clean_extracted_lines_filter:
  "clean_extracted_lines ls = filter (\<lambda>l. 5 \<le> length l) (map strip ls)"
  by (induction ls) (auto simp: Let_def)

lemma split_lines_nonempty: "split_lines s \<noteq> []"
  by (induction s) (auto split: list.splits)

lemma split_lines_no_newline: "\<forall>l \<in> set (split_lines s). newline \<notin> set l"
  by (induction s) (auto split: list.splits)

lemma split_join:
  "ls \<noteq> [] \<Longrightarrow> \<forall>l \<in> set ls. newline \<notin> set l \<Longrightarrow> split_lines (join_lines ls) = ls"
proof (induction ls rule: join_lines.induct)
  case 1
  then show ?case by simp
next
  case (2 l)
  then show ?case by (induction l) (auto split: list.splits)
next
  case (3 l m ls)
  then have ih: "split_lines (join_lines (m # ls)) = m # ls" by simp
  from 3(3) have "newline \<notin> set l" by simp
  then have "split_lines (l @ newline # join_lines (m # ls)) = l # split_lines (join_lines (m # ls))"
    by (induction l) (auto split: list.splits)
  with ih show ?case by simp
qed

lemma rstrip_idem: "rstrip (rstrip s) = rstrip s"
  by (induction s) auto

lemma rstrip_Nil_iff: "rstrip s = [] \<longleftrightarrow> (\<forall>c \<in> set s. isspace c)"
  by (induction s) auto

lemma hd_rstrip: "s \<noteq> [] \<Longrightarrow> \<not> isspace (hd s) \<Longrightarrow> rstrip s \<noteq> [] \<and> hd (rstrip s) = hd s"
  by (cases s) auto

lemma dropWhile_rstrip: "s \<noteq> [] \<Longrightarrow> \<not> isspace (hd s) \<Longrightarrow> dropWhile isspace (rstrip s) = rstrip s"
  using hd_rstrip [of s] by (cases "rstrip s") auto

lemma strip_idem: "strip (strip s) = strip s"
proof (cases "dropWhile isspace s")
  case Nil
  then show ?thesis by (simp only: strip_def lstrip_def rstrip.simps dropWhile.simps)
next
  case (Cons c cs)
  then have "\<not> isspace c" by (metis hd_dropWhile list.distinct(1) list.sel(1))
  with Cons have "dropWhile isspace (rstrip (c # cs)) = rstrip (c # cs)"
    using dropWhile_rstrip [of "c # cs"] by simp
  with Cons show ?thesis by (simp add: strip_def lstrip_def rstrip_idem)
qed

lemma strip_hd: "strip s \<noteq> [] \<Longrightarrow> \<not> isspace (hd (strip s))"
proof -
  assume a: "strip s \<noteq> []"
  then obtain c cs where c: "dropWhile isspace s = c # cs"
    by (cases "dropWhile isspace s") (auto simp: strip_def lstrip_def)
  then have "\<not> isspace c" by (metis hd_dropWhile list.distinct(1) list.sel(1))
  with c show ?thesis using hd_rstrip [of "c # cs"] by (simp add: strip_def lstrip_def)
qed


lemma single_spaced_Cons:
  "single_spaced (c # t) = (c \<noteq> tab \<and> (t = [] \<or> \<not> (c = CHR '' '' \<and> hd t = CHR '' '')) \<and> single_spaced t)"
  by (cases t) auto

lemma single_spaced_hd: "single_spaced s \<Longrightarrow> s \<noteq> [] \<Longrightarrow> hd s \<noteq> tab"
  by (cases s) (auto simp: single_spaced_Cons)

lemma collapse_spaces_Nil: "(collapse_spaces s = []) = (s = [])"
  by (cases s) auto

lemma hd_collapse_spaces: "s \<noteq> [] \<Longrightarrow> \<not> blank (hd s) \<Longrightarrow> hd (collapse_spaces s) = hd s"
  by (cases s) auto

lemma hd_dropWhile_blank: "dropWhile blank cs \<noteq> [] \<Longrightarrow> \<not> blank (hd (dropWhile blank cs))"
  by (metis hd_dropWhile)

lemma single_spaced_collapse: "single_spaced (collapse_spaces s)"
proof (induction s rule: collapse_spaces.induct)
  case 1
  then show ?case by simp
next
  case (2 c cs)
  show ?case
  proof (cases "blank c")
    case True
    let ?r = "dropWhile blank cs"
    have ih: "single_spaced (collapse_spaces ?r)" using 2(1) True by simp
    have "collapse_spaces ?r = [] \<or> hd (collapse_spaces ?r) \<noteq> CHR '' ''"
    proof (cases "?r = []")
      case True
      then have "collapse_spaces ?r = []" by (simp only: collapse_spaces.simps)
      then show ?thesis by blast
    next
      case False
      then have nb: "\<not> blank (hd ?r)" by (rule hd_dropWhile_blank)
      with False have "hd (collapse_spaces ?r) = hd ?r" by (rule hd_collapse_spaces)
      with nb show ?thesis by (auto simp: blank_def)
    qed
    with ih True show ?thesis by (auto simp: single_spaced_Cons tab_def)
  next
    case False
    with 2(2) have "single_spaced (collapse_spaces cs)" by simp
    with False show ?thesis by (auto simp: single_spaced_Cons blank_def)
  qed
qed

lemma collapse_spaces_fixed: "single_spaced s \<Longrightarrow> collapse_spaces s = s"
proof (induction s)
  case Nil
  then show ?case by simp
next
  case (Cons c cs)
  then have ih: "collapse_spaces cs = cs" by (simp add: single_spaced_Cons)
  show ?case
  proof (cases "blank c")
    case True
    with Cons.prems have c: "c = CHR '' ''" by (auto simp: single_spaced_Cons blank_def)
    have "dropWhile blank cs = cs"
    proof (cases cs)
      case Nil
      then show ?thesis by simp
    next
      case (Cons d ds)
      with Cons.prems c have "d \<noteq> CHR '' ''" "d \<noteq> tab"
        using \<open>single_spaced (c # cs)\<close> by (auto simp: single_spaced_Cons)
      with Cons show ?thesis by (simp add: blank_def)
    qed
    with True c ih show ?thesis by simp
  next
    case False
    with ih show ?thesis by simp
  qed
qed


lemma single_spaced_split: "single_spaced s \<Longrightarrow> \<forall>l \<in> set (split_lines s). single_spaced l"
proof (induction s)
  case Nil
  then show ?case by simp
next
  case (Cons c cs)
  then have ih: "\<forall>l \<in> set (split_lines cs). single_spaced l" by (simp add: single_spaced_Cons)
  show ?case
  proof (cases "c = newline")
    case True
    with ih show ?thesis by simp
  next
    case False
    obtain l ls where sp: "split_lines cs = l # ls"
      using split_lines_nonempty [of cs] by (cases "split_lines cs") auto
    have hd: "l = [] \<or> (cs \<noteq> [] \<and> hd l = hd cs)"
      using sp by (cases cs) (auto split: if_splits list.splits)
    from Cons.prems have c: "c \<noteq> tab" "cs = [] \<or> \<not> (c = CHR '' '' \<and> hd cs = CHR '' '')"
      by (auto simp: single_spaced_Cons)
    from ih sp have l: "single_spaced l" by simp
    with hd c have "single_spaced (c # l)" by (auto simp: single_spaced_Cons)
    with ih sp False show ?thesis by simp
  qed
qed

lemma single_spaced_dropWhile: "single_spaced s \<Longrightarrow> single_spaced (dropWhile P s)"
  by (induction s) (auto simp: single_spaced_Cons)

lemma hd_rstrip_eq: "rstrip s \<noteq> [] \<Longrightarrow> hd (rstrip s) = hd s"
  by (cases s) (auto split: if_splits)

lemma single_spaced_rstrip: "single_spaced s \<Longrightarrow> single_spaced (rstrip s)"
proof (induction s)
  case Nil
  then show ?case by simp
next
  case (Cons c cs)
  then have ih: "single_spaced (rstrip cs)" by (simp add: single_spaced_Cons)
  have "rstrip cs = [] \<or> (cs \<noteq> [] \<and> hd (rstrip cs) = hd cs)"
    using hd_rstrip_eq [of cs] by (cases cs) auto
  with Cons.prems ih show ?case by (auto simp: single_spaced_Cons)
qed

lemma single_spaced_strip: "single_spaced s \<Longrightarrow> single_spaced (strip s)"
  by (simp add: strip_def lstrip_def single_spaced_dropWhile single_spaced_rstrip)

lemma single_spaced_append_newline:
  "single_spaced l \<Longrightarrow> single_spaced m \<Longrightarrow> single_spaced (l @ newline # m)"
proof (induction l)
  case Nil
  then show ?case by (auto simp: single_spaced_Cons newline_def tab_def)
next
  case (Cons c cs)
  then have ih: "single_spaced (cs @ newline # m)" by (simp add: single_spaced_Cons)
  have "hd (cs @ newline # m) = (if cs = [] then newline else hd cs)" by (cases cs) auto
  with Cons.prems(1) ih show ?case by (auto simp: single_spaced_Cons newline_def)
qed

lemma single_spaced_join: "\<forall>l \<in> set ls. single_spaced l \<Longrightarrow> single_spaced (join_lines ls)"
  by (induction ls rule: join_lines.induct) (auto simp: single_spaced_append_newline)

lemma no_blank_run_fixed: "no_blank_run s \<Longrightarrow> collapse_blank_lines s = s"
proof (induction s)
  case Nil
  then show ?case by simp
next
  case (Cons c cs)
  then have ih: "collapse_blank_lines cs = cs" by simp
  have "c = newline \<Longrightarrow> takeWhile isspace cs = []"
    using Cons.prems by (cases cs) auto
  then have n: "(c = newline \<and> 2 \<le> count_newlines (takeWhile isspace cs)) = False"
    by (auto simp: count_newlines_def)
  show ?case by (simp only: collapse_blank_lines.simps n if_False ih)
qed

lemma no_blank_run_no_newline: "newline \<notin> set l \<Longrightarrow> no_blank_run (l @ r) = no_blank_run r"
  by (induction l) auto

lemma no_blank_run_join:
  "\<forall>l \<in> set ls. newline \<notin> set l \<and> trimmed l \<Longrightarrow> no_blank_run (join_lines ls)"
proof (induction ls rule: join_lines.induct)
  case 1
  then show ?case by simp
next
  case (2 l)
  then show ?case using no_blank_run_no_newline [of l "[]"] by simp
next
  case (3 l m ls)
  then have ih: "no_blank_run (join_lines (m # ls))" by simp
  from 3(2) have m: "m \<noteq> [] \<and> \<not> isspace (hd m)" by (simp add: trimmed_def)
  have "join_lines (m # ls) \<noteq> [] \<and> hd (join_lines (m # ls)) = hd m"
    using m by (cases ls) auto
  with m ih have "no_blank_run (newline # join_lines (m # ls))" by simp
  moreover from 3(2) have "newline \<notin> set l" by simp
  ultimately show ?case using no_blank_run_no_newline [of l "newline # join_lines (m # ls)"] by simp
qed

lemma last_rstrip: "rstrip s \<noteq> [] \<Longrightarrow> \<not> isspace (last (rstrip s))"
  by (induction s) (auto split: if_splits)

lemma rstrip_fixed: "s = [] \<or> \<not> isspace (last s) \<Longrightarrow> rstrip s = s"
  by (induction s) (auto split: if_splits)

lemma trimmed_strip: "strip s \<noteq> [] \<Longrightarrow> trimmed (strip s)"
  using strip_hd [of s] last_rstrip [of "lstrip s"] by (simp add: trimmed_def strip_def)

lemma strip_trimmed: "trimmed l \<Longrightarrow> strip l = l"
proof -
  assume t: "trimmed l"
  then have "dropWhile isspace l = l" by (cases l) (auto simp: trimmed_def)
  with t show ?thesis by (simp add: strip_def lstrip_def rstrip_fixed trimmed_def)
qed

lemma set_rstrip: "set (rstrip s) \<subseteq> set s"
  by (induction s) auto

lemma set_strip: "set (strip s) \<subseteq> set s"
  using set_rstrip [of "dropWhile isspace s"] set_dropWhileD [of _ isspace s]
  by (auto simp: strip_def lstrip_def)

lemma trimmed_join:
  "ls \<noteq> [] \<Longrightarrow> \<forall>l \<in> set ls. trimmed l \<Longrightarrow> trimmed (join_lines ls)"
proof (induction ls rule: join_lines.induct)
  case 1
  then show ?case by simp
next
  case (2 l)
  then show ?case by simp
next
  case (3 l m ls)
  then have ih: "trimmed (join_lines (m # ls))" by simp
  from 3(3) have l: "trimmed l" by simp
  from ih l show ?case by (cases l) (auto simp: trimmed_def)
qed

lemma strip_join: "\<forall>l \<in> set ls. trimmed l \<Longrightarrow> strip (join_lines ls) = join_lines ls"
proof (cases ls)
  case Nil
  then show ?thesis by (simp add: strip_def lstrip_def)
next
  case (Cons a list)
  assume "\<forall>l \<in> set ls. trimmed l"
  with Cons have "trimmed (join_lines ls)" using trimmed_join [of ls] by simp
  then show ?thesis by (rule strip_trimmed)
qed


lemma kept_line_props:
  assumes "l \<in> set (map strip (split_lines (collapse_spaces u)))" and "l \<noteq> []"
  shows "trimmed l \<and> newline \<notin> set l \<and> single_spaced l"
proof -
  from assms(1) obtain x where x: "x \<in> set (split_lines (collapse_spaces u))" and l: "l = strip x"
    by auto
  have "single_spaced x"
    using single_spaced_split [OF single_spaced_collapse, of u] x by simp
  then have 1: "single_spaced l" by (simp add: l single_spaced_strip)
  have "newline \<notin> set x" using split_lines_no_newline [of "collapse_spaces u"] x by simp
  then have 2: "newline \<notin> set l" using set_strip [of x] by (auto simp: l)
  have 3: "trimmed l" using assms(2) by (simp add: l trimmed_strip)
  from 1 2 3 show ?thesis by simp
qed

lemma kept_lines_all:
  "\<forall>l \<in> set (map strip (split_lines (collapse_spaces u))).
     l \<noteq> [] \<longrightarrow> trimmed l \<and> newline \<notin> set l \<and> single_spaced l"
  using kept_line_props by blast

lemma clean_extracted_text_lines:
  "clean_extracted_text t =
     join_lines (filter (\<lambda>l. 5 \<le> length l)
       (map strip (split_lines (collapse_spaces (collapse_blank_lines t)))))"
proof (cases "t = []")
  case True
  then show ?thesis by (simp add: clean_extracted_text_def strip_def lstrip_def)
next
  case False
  have "\<forall>l \<in> set (filter (\<lambda>l. 5 \<le> length l)
       (map strip (split_lines (collapse_spaces (collapse_blank_lines t))))). trimmed l"
    using kept_lines_all [of "collapse_blank_lines t"] by auto
  then show ?thesis
    using False by (simp add: clean_extracted_text_def clean_extracted_lines_filter strip_join)
qed

lemma clean_text_lines:
  "s \<noteq> [] \<Longrightarrow>
   clean_text nf s =
     join_lines (filter (\<lambda>l. 10 \<le> length l \<and> \<not> (alpha_ratio l < 3 / 10 \<and> 20 < length l))
       (map strip (split_lines (collapse_spaces (collapse_blank_lines (nf s))))))"
proof -
  assume s: "s \<noteq> []"
  have "\<forall>l \<in> set (filter (\<lambda>l. 10 \<le> length l \<and> \<not> (alpha_ratio l < 3 / 10 \<and> 20 < length l))
       (map strip (split_lines (collapse_spaces (collapse_blank_lines (nf s)))))). trimmed l"
    using kept_lines_all [of "collapse_blank_lines (nf s)"] by auto
  then show ?thesis
    using s by (simp add: clean_text_def clean_lines_filter strip_join)
qed

lemma split_join_filter:
  assumes "\<forall>l \<in> set ls. newline \<notin> set l" and "\<And>x. Q x \<Longrightarrow> x \<noteq> []"
  shows "filter Q (split_lines (join_lines ls)) = filter Q ls"
proof (cases "ls = []")
  case True
  have "\<not> Q []" using assms(2) by blast
  with True show ?thesis by simp
next
  case False
  with assms(1) show ?thesis by (simp add: split_join)
qed

lemma sample_page_cleaned:
  "clean_text (\<lambda>s. s) sample_page = ''Flight training for pilots'' @ [newline] @ ''Call us today''"
  unfolding sample_page_def by code_simp

lemma sample_page_extracted:
  "clean_extracted_text sample_page =
     ''Flight training for pilots'' @ [newline] @ ''Menu1'' @ [newline] @
     ''12345 67890 12345 67890 12345'' @ [newline] @ ''Call us today''"
  unfolding sample_page_def by code_simp

text \<open>
  Claim C3, as stated, fails: the line \<open>Hello\<close> has 5 characters; the HTML cleaner drops it and
  the PDF cleaner keeps it.
\<close>

theorem cleaners_differ:
  "clean_text (\<lambda>s. s) ''Hello'' = [] \<and> clean_extracted_text ''Hello'' = ''Hello'' \<and>
   clean_text (\<lambda>s. s) ''Hello'' \<noteq> clean_extracted_text ''Hello''"
proof -
  have a: "clean_text (\<lambda>s. s) ''Hello'' = []" by code_simp
  have b: "clean_extracted_text ''Hello'' = ''Hello''" by code_simp
  from a b show ?thesis by simp
qed

text \<open>
  Claim C3, amended. The two cleaners are different functions. Both collapse runs of blank
  lines and runs of spaces and tabs, trim every line and drop the empty ones; the PDF
  cleaner then keeps the lines of at least 5 characters (its page-number rule only concerns
  lines of at most 4 characters, which are dropped already) and does not normalise; the HTML
  cleaner normalises first and keeps the lines of at least 10 characters, except those of
  more than 20 characters whose alphabetic ratio is below 0.3. For a text that is not empty,
  the HTML cleaner's output consists of exactly those lines of the PDF cleaner's output on
  the normalised text that pass the HTML cleaner's tests.
\<close>

theorem cleaners_related:
  "clean_extracted_text t =
     join_lines (filter (\<lambda>l. 5 \<le> length l)
       (map strip (split_lines (collapse_spaces (collapse_blank_lines t))))) \<and>
   (s \<noteq> [] \<longrightarrow>
      clean_text nf s =
        join_lines (filter (\<lambda>l. 10 \<le> length l \<and> \<not> (alpha_ratio l < 3 / 10 \<and> 20 < length l))
          (map strip (split_lines (collapse_spaces (collapse_blank_lines (nf s))))))) \<and>
   (s \<noteq> [] \<longrightarrow>
      clean_text nf s =
        join_lines (filter (\<lambda>l. 10 \<le> length l \<and> \<not> (alpha_ratio l < 3 / 10 \<and> 20 < length l))
          (split_lines (clean_extracted_text (nf s)))))"
proof -
  let ?K = "\<lambda>l. 10 \<le> length l \<and> \<not> (alpha_ratio l < 3 / 10 \<and> 20 < length l)"
  let ?B = "map strip (split_lines (collapse_spaces (collapse_blank_lines (nf s))))"
  have nl: "\<forall>l \<in> set (filter (\<lambda>l. 5 \<le> length l) ?B). newline \<notin> set l"
    using kept_lines_all [of "collapse_blank_lines (nf s)"] by auto
  have "filter ?K (split_lines (clean_extracted_text (nf s))) =
      filter ?K (filter (\<lambda>l. 5 \<le> length l) ?B)"
    unfolding clean_extracted_text_lines
    by (rule split_join_filter [OF nl]) auto
  also have "\<dots> = filter ?K ?B"
    by (simp add: filter_filter) (rule filter_cong, auto)
  finally have rel: "filter ?K (split_lines (clean_extracted_text (nf s))) = filter ?K ?B" .
  show ?thesis
    using clean_extracted_text_lines [of t] clean_text_lines [of s nf] rel by simp
qed


lemma cleaned_lines_fixed:
  assumes ls: "\<forall>l \<in> set ls. trimmed l \<and> newline \<notin> set l \<and> single_spaced l"
    and keep: "\<forall>l \<in> set ls. 10 \<le> length l \<and> \<not> (alpha_ratio l < 3 / 10 \<and> 20 < length l)"
  shows "join_lines (clean_lines (split_lines (collapse_spaces (collapse_blank_lines (join_lines ls)))))
         = join_lines ls"
proof -
  have 1: "collapse_blank_lines (join_lines ls) = join_lines ls"
    using ls by (intro no_blank_run_fixed no_blank_run_join) simp
  have 2: "collapse_spaces (join_lines ls) = join_lines ls"
    using ls by (intro collapse_spaces_fixed single_spaced_join) simp
  have 3: "map strip ls = ls"
    using ls by (simp add: map_idI strip_trimmed)
  show ?thesis
  proof (cases "ls = []")
    case True
    then show ?thesis by (simp add: strip_def lstrip_def)
  next
    case False
    with ls have "split_lines (join_lines ls) = ls" by (simp add: split_join)
    moreover have "filter (\<lambda>l. 10 \<le> length l \<and> \<not> (alpha_ratio l < 3 / 10 \<and> 20 < length l)) ls = ls"
      using keep by (simp add: filter_id_conv)
    ultimately show ?thesis by (simp add: 1 2 3 clean_lines_filter)
  qed
qed

theorem cleaners_related_witness:
  "clean_extracted_text sample_page =
     ''Flight training for pilots'' @ [newline] @ ''Menu1'' @ [newline] @
     ''12345 67890 12345 67890 12345'' @ [newline] @ ''Call us today'' \<and>
   clean_text (\<lambda>s. s) sample_page =
     join_lines (filter (\<lambda>l. 10 \<le> length l \<and> \<not> (alpha_ratio l < 3 / 10 \<and> 20 < length l))
       (split_lines (clean_extracted_text sample_page))) \<and>
   clean_text (\<lambda>s. s) sample_page = ''Flight training for pilots'' @ [newline] @ ''Call us today''"
proof -
  have ne: "sample_page \<noteq> []" by (simp add: sample_page_def)
  from ne cleaners_related [of "[]" sample_page "\<lambda>s. s"]
  have "clean_text (\<lambda>s. s) sample_page =
     join_lines (filter (\<lambda>l. 10 \<le> length l \<and> \<not> (alpha_ratio l < 3 / 10 \<and> 20 < length l))
       (split_lines (clean_extracted_text sample_page)))"
    by blast
  with sample_page_extracted sample_page_cleaned show ?thesis by blast
qed

section \<open>Normal form of the cleaned text\<close>

text \<open>
  The cleaning steps delete whitespace, put a space or a newline where whitespace was, and
  drop whole lines: they neither join two pieces of the text nor change one. So the pieces of
  the cleaned text are pieces of the normalised text, and its whitespace characters are
  whitespace characters of the normalised text, spaces or newlines.
\<close>

lemma fields_nonempty: "fields t \<noteq> []"
  by (induction t) (auto split: list.splits)

lemma fields_append:
  "isspace c \<Longrightarrow> fields (a @ c # b) = fields a @ fields b"
proof (induction a)
  case Nil
  then show ?case by simp
next
  case (Cons x a)
  then show ?case using fields_nonempty [of a] by (cases "fields a") auto
qed

lemma tokens_Nil: "tokens [] = []"
  by (simp add: tokens_def)

lemma tokens_append:
  "isspace c \<Longrightarrow> tokens (a @ c # b) = tokens a @ tokens b"
  by (simp add: tokens_def fields_append)

lemma tokens_whitespace_prefix:
  "\<forall>c \<in> set v. isspace c \<Longrightarrow> tokens (v @ r) = tokens r"
proof (induction v)
  case Nil
  then show ?case by simp
next
  case (Cons c v)
  then have "tokens ([] @ c # (v @ r)) = tokens [] @ tokens (v @ r)"
    by (intro tokens_append) simp
  with Cons show ?case by (simp add: tokens_Nil)
qed

lemma tokens_whitespace_run:
  "v \<noteq> [] \<Longrightarrow> \<forall>c \<in> set v. isspace c \<Longrightarrow> tokens (p @ v @ r) = tokens p @ tokens r"
proof -
  assume ne: "v \<noteq> []" and ws: "\<forall>c \<in> set v. isspace c"
  then obtain c v' where v: "v = c # v'" by (cases v) auto
  with ws have c: "isspace c" and v': "\<forall>c \<in> set v'. isspace c" by auto
  have "tokens (p @ c # (v' @ r)) = tokens p @ tokens (v' @ r)"
    using c by (rule tokens_append)
  with v' show ?thesis by (simp add: v tokens_whitespace_prefix)
qed

lemma tokens_whitespace_suffix:
  "\<forall>c \<in> set v. isspace c \<Longrightarrow> tokens (r @ v) = tokens r"
proof (cases "v = []")
  case True
  then show ?thesis by simp
next
  case False
  assume "\<forall>c \<in> set v. isspace c"
  with False tokens_whitespace_run [of v r "[]"] show ?thesis by (simp add: tokens_Nil)
qed

lemma fields_no_whitespace: "\<forall>c \<in> set a. \<not> isspace c \<Longrightarrow> fields a = [a]"
  by (induction a) auto

lemma tokens_no_whitespace:
  "\<forall>c \<in> set a. \<not> isspace c \<Longrightarrow> tokens a = (if a = [] then [] else [a])"
  by (simp add: tokens_def fields_no_whitespace)


lemma normal_by_tokens:
  assumes laws: "nfkc_laws nf"
  shows "(nf t = t) =
         ((\<forall>w \<in> set (tokens t). nf w = w) \<and> (\<forall>c \<in> set t. isspace c \<longrightarrow> nf [c] = [c]))"
proof (induction "length t" arbitrary: t rule: less_induct)
  case less
  show ?case
  proof (cases "\<forall>c \<in> set t. \<not> isspace c")
    case True
    from laws have "nf [] = []" by (simp add: nfkc_laws_def)
    with True show ?thesis by (auto simp: tokens_no_whitespace)
  next
    case False
    define a where "a = takeWhile (\<lambda>c. \<not> isspace c) t"
    define r where "r = dropWhile (\<lambda>c. \<not> isspace c) t"
    from False have "r \<noteq> []" by (auto simp: r_def)
    then obtain c b where r: "r = c # b" by (cases r) auto
    have "\<not> \<not> isspace (hd (dropWhile (\<lambda>c. \<not> isspace c) t))"
      using \<open>r \<noteq> []\<close> unfolding r_def by (rule hd_dropWhile)
    then have c: "isspace c" using r by (simp add: r_def [symmetric])
    have "t = a @ r" by (simp add: a_def r_def)
    then have t: "t = a @ c # b" by (simp only: r)
    have a: "\<forall>c \<in> set a. \<not> isspace c" by (auto simp: a_def dest: set_takeWhileD)
    have "length b < length t" by (simp add: t)
    then have ih: "(nf b = b) =
        ((\<forall>w \<in> set (tokens b). nf w = w) \<and> (\<forall>c \<in> set b. isspace c \<longrightarrow> nf [c] = [c]))"
      by (rule less)
    from laws have e: "nf [] = []" by (simp add: nfkc_laws_def)
    have na: "(nf a = a) = (\<forall>w \<in> set (tokens a). nf w = w)"
      using a e by (simp add: tokens_no_whitespace)
    from laws c have "(nf (a @ c # b) = a @ c # b) = (nf a = a \<and> nf [c] = [c] \<and> nf b = b)"
      by (simp add: nfkc_laws_def)
    with ih na a c show ?thesis
      by (auto simp: t tokens_append)
  qed
qed

lemma set_after_last_newline: "set (after_last_newline w) \<subseteq> set w"
  by (induction w) auto

lemma isspace_newline: "isspace newline"
  by (simp add: isspace_def newline_def cp_def)

lemma blank_isspace: "blank c \<Longrightarrow> isspace c"
  by (auto simp: blank_def tab_def isspace_def cp_def)

lemma tokens_collapse_blank_lines_prefix:
  "tokens (p @ collapse_blank_lines x) = tokens (p @ x)"
proof (induction x arbitrary: p rule: collapse_blank_lines.induct)
  case 1
  then show ?case by simp
next
  case (2 c cs)
  define tw where "tw = takeWhile isspace cs"
  define dw where "dw = dropWhile isspace cs"
  have cs: "cs = tw @ dw" by (simp add: tw_def dw_def)
  have tw: "\<forall>c \<in> set tw. isspace c" by (auto simp: tw_def dest: set_takeWhileD)
  show ?case
  proof (cases "c = newline \<and> 2 \<le> count_newlines (takeWhile isspace cs)")
    case True
    then have ih: "tokens (q @ collapse_blank_lines (after_last_newline tw @ dw)) =
        tokens (q @ after_last_newline tw @ dw)" for q
      using 2(1) [of q] by (simp add: tw_def dw_def)
    have ws: "\<forall>c \<in> set ([newline, newline] @ after_last_newline tw). isspace c"
      using tw set_after_last_newline [of tw] by (auto simp: isspace_newline)
    have ws': "\<forall>d \<in> set (c # tw). isspace d"
      using tw True by (auto simp: isspace_newline)
    have "tokens (p @ collapse_blank_lines (c # cs)) =
        tokens ((p @ [newline, newline]) @ collapse_blank_lines (after_last_newline tw @ dw))"
      using True by (simp add: tw_def dw_def)
    also have "\<dots> = tokens (p @ ([newline, newline] @ after_last_newline tw) @ dw)"
      using ih [of "p @ [newline, newline]"] by simp
    also have "\<dots> = tokens p @ tokens dw"
      using ws by (intro tokens_whitespace_run) simp_all
    also have "\<dots> = tokens (p @ (c # tw) @ dw)"
      using ws' by (intro tokens_whitespace_run [symmetric]) simp_all
    finally show ?thesis by (simp add: cs)
  next
    case False
    then have f: "(c = newline \<and> 2 \<le> count_newlines (takeWhile isspace cs)) = False" by simp
    have e: "collapse_blank_lines (c # cs) = c # collapse_blank_lines cs"
      by (simp only: collapse_blank_lines.simps f if_False)
    have "tokens ((p @ [c]) @ collapse_blank_lines cs) = tokens ((p @ [c]) @ cs)"
      using False by (rule 2(2))
    then have "tokens (p @ c # collapse_blank_lines cs) = tokens (p @ c # cs)" by simp
    then show ?thesis by (simp only: e)
  qed
qed

lemma tokens_collapse_blank_lines: "tokens (collapse_blank_lines x) = tokens x"
  using tokens_collapse_blank_lines_prefix [of "[]" x] by simp

lemma tokens_collapse_spaces_prefix:
  "tokens (p @ collapse_spaces x) = tokens (p @ x)"
proof (induction x arbitrary: p rule: collapse_spaces.induct)
  case 1
  then show ?case by simp
next
  case (2 c cs)
  define tw where "tw = takeWhile blank cs"
  define dw where "dw = dropWhile blank cs"
  have cs: "cs = tw @ dw" by (simp add: tw_def dw_def)
  have tw: "\<forall>c \<in> set tw. isspace c" by (auto simp: tw_def blank_isspace dest: set_takeWhileD)
  show ?case
  proof (cases "blank c")
    case True
    then have ih: "tokens (q @ collapse_spaces dw) = tokens (q @ dw)" for q
      using 2(1) [of q] by (simp add: dw_def)
    have sp: "isspace (CHR '' '')" by (simp add: isspace_def cp_def)
    have ws': "\<forall>d \<in> set (c # tw). isspace d"
      using tw True by (auto simp: blank_isspace)
    have "tokens (p @ collapse_spaces (c # cs)) = tokens ((p @ '' '') @ collapse_spaces dw)"
      using True by (simp add: dw_def)
    also have "\<dots> = tokens (p @ '' '' @ dw)"
      using ih [of "p @ '' ''"] by simp
    also have "\<dots> = tokens p @ tokens dw"
      using sp by (intro tokens_whitespace_run) simp_all
    also have "\<dots> = tokens (p @ (c # tw) @ dw)"
      using ws' by (intro tokens_whitespace_run [symmetric]) simp_all
    finally show ?thesis by (simp add: cs)
  next
    case False
    then have "tokens ((p @ [c]) @ collapse_spaces cs) = tokens ((p @ [c]) @ cs)"
      using 2(2) [of "p @ [c]"] by simp
    with False show ?thesis by simp
  qed
qed

lemma tokens_collapse_spaces: "tokens (collapse_spaces x) = tokens x"
  using tokens_collapse_spaces_prefix [of "[]" x] by simp

lemma rstrip_decomp: "\<exists>v. s = rstrip s @ v \<and> (\<forall>c \<in> set v. isspace c)"
proof (induction s)
  case Nil
  then show ?case by simp
next
  case (Cons c cs)
  then obtain v where v: "cs = rstrip cs @ v" and ws: "\<forall>c \<in> set v. isspace c" by blast
  show ?case
  proof (cases "isspace c \<and> rstrip cs = []")
    case True
    with v ws have "c # cs = rstrip (c # cs) @ (c # v) \<and> (\<forall>d \<in> set (c # v). isspace d)" by simp
    then show ?thesis by blast
  next
    case False
    with v ws have "c # cs = rstrip (c # cs) @ v \<and> (\<forall>d \<in> set v. isspace d)" by auto
    then show ?thesis by blast
  qed
qed

lemma tokens_rstrip: "tokens (rstrip s) = tokens s"
proof -
  obtain v where v: "s = rstrip s @ v" and ws: "\<forall>c \<in> set v. isspace c"
    using rstrip_decomp by blast
  from ws have "tokens (rstrip s @ v) = tokens (rstrip s)" by (rule tokens_whitespace_suffix)
  with v show ?thesis by simp
qed

lemma tokens_strip: "tokens (strip s) = tokens s"
proof -
  have "\<forall>c \<in> set (takeWhile isspace s). isspace c" by (auto dest: set_takeWhileD)
  then have "tokens (takeWhile isspace s @ dropWhile isspace s) = tokens (dropWhile isspace s)"
    by (rule tokens_whitespace_prefix)
  then show ?thesis by (simp add: strip_def lstrip_def tokens_rstrip)
qed

lemma tokens_join: "tokens (join_lines ls) = concat (map tokens ls)"
proof (induction ls rule: join_lines.induct)
  case 1
  then show ?case by (simp add: tokens_Nil)
next
  case (2 l)
  then show ?case by simp
next
  case (3 l m ls)
  have "tokens (l @ newline # join_lines (m # ls)) = tokens l @ tokens (join_lines (m # ls))"
    using isspace_newline by (rule tokens_append)
  with 3 show ?case by simp
qed

lemma join_split: "join_lines (split_lines x) = x"
proof (induction x)
  case Nil
  then show ?case by simp
next
  case (Cons c cs)
  obtain l ls where l: "split_lines cs = l # ls"
    using split_lines_nonempty [of cs] by (cases "split_lines cs") auto
  with Cons show ?case by (cases ls) auto
qed

lemma set_join: "set (join_lines ls) \<subseteq> \<Union> (set ` set ls) \<union> {newline}"
  by (induction ls rule: join_lines.induct) auto

lemma set_line_join: "l \<in> set ls \<Longrightarrow> set l \<subseteq> set (join_lines ls)"
  by (induction ls rule: join_lines.induct) auto

lemma set_split_lines: "l \<in> set (split_lines x) \<Longrightarrow> set l \<subseteq> set x"
  using set_line_join [of l "split_lines x"] by (simp add: join_split)

lemma tokens_split_lines: "l \<in> set (split_lines x) \<Longrightarrow> set (tokens l) \<subseteq> set (tokens x)"
proof -
  assume l: "l \<in> set (split_lines x)"
  have "tokens x = concat (map tokens (split_lines x))"
    using tokens_join [of "split_lines x"] by (simp add: join_split)
  with l show ?thesis by auto
qed

lemma set_collapse_blank_lines: "set (collapse_blank_lines x) \<subseteq> set x"
proof (induction x rule: collapse_blank_lines.induct)
  case 1
  then show ?case by simp
next
  case (2 c cs)
  have "set (after_last_newline (takeWhile isspace cs) @ dropWhile isspace cs) \<subseteq> set cs"
    using set_after_last_newline [of "takeWhile isspace cs"]
    by (auto dest: set_takeWhileD set_dropWhileD)
  with 2 show ?case by auto
qed

lemma set_collapse_spaces: "set (collapse_spaces x) \<subseteq> set x \<union> {CHR '' ''}"
proof (induction x rule: collapse_spaces.induct)
  case 1
  then show ?case by simp
next
  case (2 c cs)
  have "set (dropWhile blank cs) \<subseteq> set cs" by (auto dest: set_dropWhileD)
  with 2 show ?case by auto
qed


lemma cleaned_text_normal:
  assumes laws: "nfkc_laws nf"
  shows "nf (clean_text nf s) = clean_text nf s"
proof (cases "s = []")
  case True
  from laws have "nf [] = []" by (simp add: nfkc_laws_def)
  with True show ?thesis by (simp add: clean_text_def)
next
  case False
  let ?K = "\<lambda>l. 10 \<le> length l \<and> \<not> (alpha_ratio l < 3 / 10 \<and> 20 < length l)"
  define y where "y = collapse_spaces (collapse_blank_lines (nf s))"
  define ls where "ls = filter ?K (map strip (split_lines y))"
  have out: "clean_text nf s = join_lines ls"
    using False by (simp add: clean_text_lines ls_def y_def)
  from laws have "nf (nf s) = nf s" by (simp add: nfkc_laws_def)
  then have normal: "(\<forall>w \<in> set (tokens (nf s)). nf w = w) \<and>
      (\<forall>c \<in> set (nf s). isspace c \<longrightarrow> nf [c] = [c])"
    by (simp add: normal_by_tokens [OF laws, of "nf s"])
  from laws have space: "nf '' '' = '' ''" and nl: "nf [newline] = [newline]"
    by (simp_all add: nfkc_laws_def)
  have ty: "tokens y = tokens (nf s)"
    by (simp add: y_def tokens_collapse_spaces tokens_collapse_blank_lines)
  have sy: "set y \<subseteq> set (nf s) \<union> {CHR '' ''}"
    using set_collapse_spaces [of "collapse_blank_lines (nf s)"] set_collapse_blank_lines [of "nf s"]
    by (auto simp: y_def)
  have line: "set (tokens l) \<subseteq> set (tokens (nf s)) \<and> set l \<subseteq> set (nf s) \<union> {CHR '' ''}"
    if "l \<in> set ls" for l
  proof -
    from that obtain x where x: "x \<in> set (split_lines y)" and l: "l = strip x"
      by (auto simp: ls_def)
    have "set (tokens l) \<subseteq> set (tokens (nf s))"
      using tokens_split_lines [OF x] by (simp add: l tokens_strip ty)
    moreover have "set l \<subseteq> set (nf s) \<union> {CHR '' ''}"
      using set_strip [of x] set_split_lines [OF x] sy by (auto simp: l)
    ultimately show ?thesis by simp
  qed
  have t: "\<forall>w \<in> set (tokens (join_lines ls)). nf w = w"
    using line normal by (auto simp: tokens_join)
  have c: "\<forall>c \<in> set (join_lines ls). isspace c \<longrightarrow> nf [c] = [c]"
  proof
    fix c
    assume "c \<in> set (join_lines ls)"
    with set_join [of ls] have "c = newline \<or> (\<exists>l \<in> set ls. c \<in> set l)" by auto
    with line have "c = newline \<or> c = CHR '' '' \<or> c \<in> set (nf s)" by auto
    with normal space nl show "isspace c \<longrightarrow> nf [c] = [c]" by auto
  qed
  from t c have "nf (join_lines ls) = join_lines ls"
    by (simp add: normal_by_tokens [OF laws, of "join_lines ls"])
  then show ?thesis by (simp add: out)
qed

lemma nfkc_char_idem: "nfkc_char (nfkc_char c) = nfkc_char c"
  by (simp add: nfkc_char_def cp_def)

lemma nfkc_latin1_laws: "nfkc_laws nfkc_latin1"
  by (simp add: nfkc_laws_def nfkc_latin1_def nfkc_char_idem)
     (simp add: nfkc_char_def cp_def newline_def)

lemma sample_nbsp_page_cleaned:
  "clean_text nfkc_latin1 sample_nbsp_page =
     ''Flight training for pilots2'' @ [newline] @ ''Call us today''"
  unfolding sample_nbsp_page_def by code_simp

lemma sample_nbsp_page_lines:
  "split_lines (''Flight training for pilots2'' @ [newline] @ ''Call us today'') =
     [''Flight training for pilots2'', ''Call us today'']"
  by code_simp

section \<open>Idempotence of the HTML cleaner\<close>

text \<open>
  A cleaned text is a fixed point of every step after the normalisation, for every
  normalisation function; so cleaning it again returns it if the normalisation leaves it as
  it is.
\<close>

lemma clean_text_fixed_point:
  "(nf (clean_text nf s) = clean_text nf s \<longrightarrow>
      clean_text nf (clean_text nf s) = clean_text nf s) \<and>
   collapse_blank_lines (clean_text nf s) = clean_text nf s \<and>
   collapse_spaces (clean_text nf s) = clean_text nf s \<and>
   (clean_text nf s \<noteq> [] \<longrightarrow>
      (\<forall>l \<in> set (split_lines (clean_text nf s)).
         strip l = l \<and> 10 \<le> length l \<and> \<not> (alpha_ratio l < 3 / 10 \<and> 20 < length l)))"
proof (cases "s = []")
  case True
  then show ?thesis by (simp add: clean_text_def)
next
  case False
  let ?K = "\<lambda>l. 10 \<le> length l \<and> \<not> (alpha_ratio l < 3 / 10 \<and> 20 < length l)"
  define ls where "ls = filter ?K (map strip (split_lines (collapse_spaces (collapse_blank_lines (nf s)))))"
  have out: "clean_text nf s = join_lines ls"
    using False by (simp add: clean_text_lines ls_def)
  have props: "\<forall>l \<in> set ls. trimmed l \<and> newline \<notin> set l \<and> single_spaced l"
    using kept_lines_all [of "collapse_blank_lines (nf s)"] by (auto simp: ls_def)
  have keep: "\<forall>l \<in> set ls. ?K l" by (simp add: ls_def)
  have fixed: "join_lines (clean_lines (split_lines (collapse_spaces (collapse_blank_lines (join_lines ls)))))
      = join_lines ls"
    using props keep by (rule cleaned_lines_fixed)
  have tr: "\<forall>l \<in> set ls. trimmed l" using props by simp
  have idem: "clean_text nf (clean_text nf s) = clean_text nf s"
    if assms: "nf (clean_text nf s) = clean_text nf s"
  proof (cases "join_lines ls = []")
    case True
    with out have e: "clean_text nf s = []" by simp
    have "clean_text nf [] = []" by (simp add: clean_text_def)
    with e show ?thesis by simp
  next
    case False
    have nfo: "nf (join_lines ls) = join_lines ls" using assms by (simp only: out)
    have "clean_text nf (join_lines ls) =
        strip (join_lines (clean_lines (split_lines (collapse_spaces (collapse_blank_lines (join_lines ls))))))"
      using False nfo by (simp add: clean_text_def)
    also have "\<dots> = join_lines ls" using tr by (simp add: fixed strip_join)
    finally show ?thesis by (simp add: out)
  qed
  have cb: "collapse_blank_lines (clean_text nf s) = clean_text nf s"
    unfolding out using props by (intro no_blank_run_fixed no_blank_run_join) simp
  have cs: "collapse_spaces (clean_text nf s) = clean_text nf s"
    unfolding out using props by (intro collapse_spaces_fixed single_spaced_join) simp
  have lines: "\<forall>l \<in> set (split_lines (clean_text nf s)). strip l = l \<and> ?K l"
    if ne: "clean_text nf s \<noteq> []"
  proof -
    from ne have "ls \<noteq> []" by (auto simp: out)
    with props have "split_lines (join_lines ls) = ls" by (simp add: split_join)
    with props keep show ?thesis by (simp add: out strip_trimmed)
  qed
  from idem cb cs lines show ?thesis by blast
qed

text \<open>
  Claim C10. For every input text, cleaning the cleaned text changes nothing, and the cleaned
  text is a fixed point of every step: it is in normal form, it has no run of blank lines
  and no run of blanks left, and each of its lines is trimmed, has at least 10 characters
  and passes the alphabetic-ratio test. Normalisation is a library function and a parameter
  here; the first part holds for every normalisation with the properties \<open>nfkc_laws\<close>, which
  speak of the library function alone, and the other parts for every function.
\<close>

theorem clean_text_idempotent:
  "(nfkc_laws nf \<longrightarrow>
      clean_text nf (clean_text nf s) = clean_text nf s \<and>
      nf (clean_text nf s) = clean_text nf s) \<and>
   collapse_blank_lines (clean_text nf s) = clean_text nf s \<and>
   collapse_spaces (clean_text nf s) = clean_text nf s \<and>
   (clean_text nf s \<noteq> [] \<longrightarrow>
      (\<forall>l \<in> set (split_lines (clean_text nf s)).
         strip l = l \<and> 10 \<le> length l \<and> \<not> (alpha_ratio l < 3 / 10 \<and> 20 < length l)))"
proof -
  note steps = clean_text_fixed_point [of nf s]
  have "clean_text nf (clean_text nf s) = clean_text nf s \<and> nf (clean_text nf s) = clean_text nf s"
    if laws: "nfkc_laws nf"
  proof -
    from laws have "nf (clean_text nf s) = clean_text nf s" by (rule cleaned_text_normal)
    with steps show ?thesis by blast
  qed
  with steps show ?thesis by blast
qed

theorem clean_text_idempotent_witness:
  "clean_text nfkc_latin1 sample_nbsp_page =
     ''Flight training for pilots2'' @ [newline] @ ''Call us today'' \<and>
   clean_text nfkc_latin1 (''Flight training for pilots2'' @ [newline] @ ''Call us today'') =
     ''Flight training for pilots2'' @ [newline] @ ''Call us today'' \<and>
   nfkc_latin1 (''Flight training for pilots2'' @ [newline] @ ''Call us today'') =
     ''Flight training for pilots2'' @ [newline] @ ''Call us today'' \<and>
   collapse_blank_lines (''Flight training for pilots2'' @ [newline] @ ''Call us today'') =
     ''Flight training for pilots2'' @ [newline] @ ''Call us today'' \<and>
   collapse_spaces (''Flight training for pilots2'' @ [newline] @ ''Call us today'') =
     ''Flight training for pilots2'' @ [newline] @ ''Call us today'' \<and>
   strip ''Flight training for pilots2'' = ''Flight training for pilots2'' \<and>
   strip ''Call us today'' = ''Call us today''"
proof -
  let ?out = "''Flight training for pilots2'' @ [newline] @ ''Call us today''"
  note at_sample = clean_text_idempotent [of nfkc_latin1 sample_nbsp_page]
  have ne: "?out \<noteq> []" by simp
  from at_sample nfkc_latin1_laws
  have 1: "clean_text nfkc_latin1 ?out = ?out \<and> nfkc_latin1 ?out = ?out"
    by (simp only: sample_nbsp_page_cleaned)
  from at_sample
  have 2: "collapse_blank_lines ?out = ?out \<and> collapse_spaces ?out = ?out"
    by (simp only: sample_nbsp_page_cleaned)
  from at_sample ne
  have "\<forall>l \<in> set (split_lines ?out). strip l = l"
    by (simp only: sample_nbsp_page_cleaned) blast
  then have 3: "strip ''Flight training for pilots2'' = ''Flight training for pilots2'' \<and>
      strip ''Call us today'' = ''Call us today''"
    by (simp only: sample_nbsp_page_lines) simp
  from sample_nbsp_page_cleaned 1 2 3 show ?thesis by blast
qed
end
